theory Spec2Isabelle
  imports Main
begin

section \<open>Messages and sessions (components/types.ts)\<close>

datatype role = User | Assistant

record message =
  role :: role
  content :: string

text \<open>The field \<open>id\<close> of a session is written \<open>session_id\<close>, and its \<open>messages\<close> are
  written \<open>history\<close>, since \<open>id\<close> is a constant of HOL and \<open>messages\<close> is also the name
  of the chat component's state variable.\<close>

record session =
  session_id :: string
  title :: string
  history :: "message list"
  createdAt :: nat

section \<open>The JavaScript the stream consumer relies on\<close>

text \<open>
  Strings are lists of characters; a character stands for a code unit below 256.
  \<open>String.prototype.trim\<close> strips white space and line terminators from both ends;
  of these, TAB, LF, VT, FF, CR, SP and NBSP are code units below 256.
\<close>

definition newline :: char where
  "newline = CHR 0x0A"

definition is_space :: "char \<Rightarrow> bool" where
  "is_space c = (c \<in> {CHR 0x09, CHR 0x0A, CHR 0x0B, CHR 0x0C, CHR 0x0D, CHR 0x20, CHR 0xA0})"

definition trim :: "string \<Rightarrow> string" where
  "trim s = rev (dropWhile is_space (rev (dropWhile is_space s)))"

definition startsWith :: "string \<Rightarrow> string \<Rightarrow> bool" where
  "startsWith s p = (take (length p) s = p)"

text \<open>\<open>s.split('\n')\<close>: the pieces between the newlines; never the empty array.\<close>

fun split_newline :: "string \<Rightarrow> string list" where
  "split_newline [] = [[]]"
| "split_newline (c # cs) =
     (if c = newline then [] # split_newline cs
      else (case split_newline cs of
              [] \<Rightarrow> [[c]]
            | l # ls \<Rightarrow> (c # l) # ls))"

text \<open>
  The values \<open>JSON.parse\<close> can return. An object is the list of its own properties,
  each name once.
  Numbers are IEEE doubles; their type is left open, and the two operations the consumer
  applies to a number (\<open>ToBoolean\<close> and \<open>ToString\<close>) are taken from the runtime, as is
  \<open>JSON.parse\<close> itself (\<open>None\<close>: it throws a \<open>SyntaxError\<close>).
\<close>

datatype 'n json =
    JNull
  | JBool bool
  | JNum 'n
  | JStr string
  | JArr "'n json list"
  | JObj "(string \<times> 'n json) list"

datatype js_error = SyntaxError | TypeError | NetworkError | StreamFailed

record 'n runtime =
  json_parse :: "string \<Rightarrow> 'n json option"
  number_truthy :: "'n \<Rightarrow> bool"
  number_text :: "'n \<Rightarrow> string"

text \<open>
  \<open>parsed.type\<close> and \<open>parsed.data\<close>: reading a property of \<open>null\<close> throws a \<open>TypeError\<close>;
  a primitive or an array has neither property (\<open>undefined\<close>, here \<open>None\<close>); an object has
  it when it is one of its own properties (\<open>Object.prototype\<close> has no \<open>type\<close> or
  \<open>data\<close>).
\<close>

fun get_prop :: "'n json \<Rightarrow> string \<Rightarrow> js_error + 'n json option" where
  "get_prop JNull k = Inl TypeError"
| "get_prop (JObj kvs) k = Inr (map_of kvs k)"
| "get_prop v k = Inr None"

text \<open>\<open>ToBoolean\<close> of a parsed value.\<close>

fun truthy :: "'n runtime \<Rightarrow> 'n json \<Rightarrow> bool" where
  "truthy R JNull = False"
| "truthy R (JBool b) = b"
| "truthy R (JNum n) = number_truthy R n"
| "truthy R (JStr s) = (s \<noteq> [])"
| "truthy R (JArr xs) = True"
| "truthy R (JObj kvs) = True"

text \<open>
  The string that \<open>text + v\<close> appends for a parsed value \<open>v\<close>. An array is joined with
  commas, \<open>null\<close> elements giving the empty string; a plain object gives
  \<open>[object Object]\<close>, unless it has an own property \<open>toString\<close>, which after
  \<open>JSON.parse\<close> is never callable, so that the conversion throws a \<open>TypeError\<close>.
\<close>

fun to_string :: "'n runtime \<Rightarrow> 'n json \<Rightarrow> js_error + string"
  and join :: "'n runtime \<Rightarrow> 'n json list \<Rightarrow> js_error + string" where
  "to_string R JNull = Inr ''null''"
| "to_string R (JBool b) = Inr (if b then ''true'' else ''false'')"
| "to_string R (JNum n) = Inr (number_text R n)"
| "to_string R (JStr s) = Inr s"
| "to_string R (JArr xs) = join R xs"
| "to_string R (JObj kvs) =
     (if ''toString'' \<in> fst ` set kvs then Inl TypeError else Inr ''[object Object]'')"
| "join R [] = Inr []"
| "join R (x # xs) =
     (case (case x of JNull \<Rightarrow> Inr [] | _ \<Rightarrow> to_string R x) of
        Inl e \<Rightarrow> Inl e
      | Inr s \<Rightarrow>
          (case join R xs of
             Inl e \<Rightarrow> Inl e
           | Inr t \<Rightarrow> Inr (if xs = [] then s else s @ '','' @ t)))"

section \<open>The chat component's state (chat.tsx)\<close>

datatype UploadStatus = Idle | Uploading | Embedding | Success | Error

record PdfEntry =
  name :: string
  displayName :: string
  objectUrl :: string

record chat =
  messages :: "message list"
  input :: string
  loading :: bool
  suggestions :: "string list"
  suggestionsLoading :: bool
  uploadStatus :: UploadStatus
  uploadedFileName :: "string option"
  uploadedFileServerName :: "string option"
  pdfLibrary :: "PdfEntry list"
  previewPdfName :: "string option"
  showPdfLibrary :: bool
  mergeSelected :: "string list"
  mergeName :: string
  mergeLoading :: bool
  translatingPdf :: "string option"
  pendingUploadRef :: "(string \<times> string) option"

text \<open>What a handler does to the outside: the requests it sends and the callbacks it calls.\<close>

datatype effect =
    ChatStreamRequest string "message list" "string list"
  | SuggestionsRequest string string
  | TranslateStreamRequest string string
  | SaveSession string "message list"
  | DeletePdfRequest string
  | MergeRequest "string list" string
  | StatusRequest string
  | RevokeObjectURL string
  | Alert string

section \<open>The stream consumer (chat.tsx, sendMessage and handleTranslate)\<close>

text \<open>
  The read loops of \<open>sendMessage\<close> and \<open>handleTranslate\<close> are the same text but for the
  name of the accumulator (\<open>fullAnswer\<close>, \<open>fullText\<close>). The loop changes the local
  accumulator and, through \<open>setMessages\<close>, the message list of the component: its state
  is that pair.
\<close>

type_synonym consumer = "string \<times> message list"

text \<open>
  The updater passed to \<open>setMessages\<close> for a token: the last message gets the token
  appended to its content. The list is never empty there, since the exchange has just
  appended the user turn and the empty assistant message.
\<close>

definition append_to_last :: "string \<Rightarrow> message list \<Rightarrow> message list" where
  "append_to_last tok prev =
     prev[length prev - 1 :=
       (prev ! (length prev - 1))\<lparr>content := content (prev ! (length prev - 1)) @ tok\<rparr>]"

text \<open>The body of the \<open>try\<close> block of one \<open>data:\<close> line.\<close>

definition try_token :: "'n runtime \<Rightarrow> string \<Rightarrow> consumer \<Rightarrow> js_error + consumer" where
  "try_token R data st =
     (case json_parse R data of
        None \<Rightarrow> Inl SyntaxError
      | Some parsed \<Rightarrow>
          (case get_prop parsed ''type'' of
             Inl e \<Rightarrow> Inl e
           | Inr ty \<Rightarrow>
               if ty \<noteq> Some (JStr ''token'') then Inr st
               else (case get_prop parsed ''data'' of
                       Inl e \<Rightarrow> Inl e
                     | Inr None \<Rightarrow> Inr st
                     | Inr (Some d) \<Rightarrow>
                         if \<not> truthy R d then Inr st
                         else (case to_string R d of
                                 Inl e \<Rightarrow> Inl e
                               | Inr tok \<Rightarrow>
                                   Inr (fst st @ tok, append_to_last tok (snd st))))))"

datatype 'a flow = Continue 'a | Break 'a

text \<open>One turn of \<open>for (const line of lines)\<close>; the \<open>catch\<close> skips the line.\<close>

definition handle_line :: "'n runtime \<Rightarrow> string \<Rightarrow> consumer \<Rightarrow> consumer flow" where
  "handle_line R line st =
     (if \<not> startsWith line ''data: '' then Continue st
      else let data = trim (drop 6 line) in
        if data = ''[DONE]'' then Break st
        else (case try_token R data st of
                Inl e \<Rightarrow> Continue st
              | Inr st' \<Rightarrow> Continue st'))"

fun for_lines :: "'n runtime \<Rightarrow> string list \<Rightarrow> consumer \<Rightarrow> consumer" where
  "for_lines R [] st = st"
| "for_lines R (line # lines) st =
     (case handle_line R line st of
        Break st' \<Rightarrow> st'
      | Continue st' \<Rightarrow> for_lines R lines st')"

text \<open>
  What \<open>reader.read()\<close> gives, with the chunk already decoded by the \<open>TextDecoder\<close>: a
  chunk of text, or a rejection. A body is the list of what its reads give; the end of
  the list is \<open>done\<close>. (A body that never ends is no list: the handler then never
  returns.)
\<close>

datatype read_result = Chunk string | ReadThrows

text \<open>
  \<open>while (true)\<close>: the result is the exception that left the loop, if any, with the state
  as the loop left it (an exception undoes nothing).
\<close>

fun read_loop ::
  "'n runtime \<Rightarrow> read_result list \<Rightarrow> string \<Rightarrow> consumer \<Rightarrow> js_error option \<times> consumer" where
  "read_loop R [] sseBuffer st = (None, st)"
| "read_loop R (ReadThrows # rest) sseBuffer st = (Some NetworkError, st)"
| "read_loop R (Chunk v # rest) sseBuffer st =
     (let lines = split_newline (sseBuffer @ v)
      in read_loop R rest (last lines) (for_lines R (butlast lines) st))"

text \<open>
  The answer of \<open>fetch\<close> to a stream request: it rejects, or it resolves with \<open>res.ok\<close>
  and \<open>res.body\<close> (\<open>None\<close>: no body), the body being what its reader will give.
\<close>

datatype stream_reply = FetchRejects | Response bool "read_result list option"

text \<open>
  The answer to the suggestions request: \<open>fetch\<close> or \<open>json()\<close> throws, the response is
  not ok, or it carries \<open>sugData.suggestions\<close> (\<open>None\<close>: absent).
\<close>

datatype suggestions_reply = SuggestionsThrow | SuggestionsNotOk | SuggestionsOk "string list option"

text \<open>
  From \<open>fetch\<close> to the end of the read loop, common to both handlers:
  \<open>if (!res.ok || !res.body) throw\<close>, then the loop over an empty buffer.
\<close>

definition consume :: "'n runtime \<Rightarrow> stream_reply \<Rightarrow> consumer \<Rightarrow> js_error option \<times> consumer" where
  "consume R reply st =
     (case reply of
        FetchRejects \<Rightarrow> (Some NetworkError, st)
      | Response ok body \<Rightarrow>
          (case body of
             None \<Rightarrow> (Some StreamFailed, st)
           | Some chunks \<Rightarrow>
               if \<not> ok then (Some StreamFailed, st) else read_loop R chunks [] st))"

text \<open>The updater of the \<open>catch\<close> block: the last message becomes the error message.\<close>

definition replace_last :: "message \<Rightarrow> message list \<Rightarrow> message list" where
  "replace_last m prev = prev[length prev - 1 := m]"

definition sendMessage ::
  "'n runtime \<Rightarrow> string \<Rightarrow> string option \<Rightarrow> stream_reply \<Rightarrow> suggestions_reply \<Rightarrow> chat
     \<Rightarrow> chat \<times> effect list" where
  "sendMessage R sessionId overrideText reply sug st =
     (let trimmed = trim (case overrideText of Some t \<Rightarrow> t | None \<Rightarrow> input st) in
      if trimmed = [] \<or> loading st then (st, [])
      else
        let userMessage = \<lparr>role = User, content = trimmed\<rparr>;
            messagesBeforeExchange = messages st;
            st1 = st\<lparr>suggestions := [],
                     messages := (messages st @ [userMessage]) @ [\<lparr>role = Assistant, content = []\<rparr>],
                     input := [],
                     loading := True\<rparr>;
            request = ChatStreamRequest trimmed (messages st) (map name (pdfLibrary st));
            (thrown, fullAnswer, shown) = consume R reply ([], messages st1);
            st2 = st1\<lparr>messages := shown\<rparr>
        in (case thrown of
              Some e \<Rightarrow>
                (st2\<lparr>messages :=
                        replace_last \<lparr>role = Assistant, content = ''Error: Could not reach the server.''\<rparr>
                          (messages st2),
                      loading := False\<rparr>,
                 [request])
            | None \<Rightarrow>
                let (st3, asked) =
                      (if trim fullAnswer = [] then (st2, [])
                       else (st2\<lparr>suggestions :=
                                    (case sug of
                                       SuggestionsOk (Some l) \<Rightarrow> l
                                     | SuggestionsOk None \<Rightarrow> []
                                     | _ \<Rightarrow> suggestions st2),
                                  suggestionsLoading := False\<rparr>,
                             [SuggestionsRequest trimmed fullAnswer]))
                in (st3\<lparr>loading := False\<rparr>,
                    [request] @ asked @
                    (if trim fullAnswer \<noteq> []
                     then [SaveSession sessionId
                             (messagesBeforeExchange @
                              [userMessage, \<lparr>role = Assistant, content = fullAnswer\<rparr>])]
                     else []))))"

text \<open>\<open>translatingPdf || loading\<close>: the empty file name is falsy, as \<open>null\<close> is.\<close>

definition handleTranslate ::
  "'n runtime \<Rightarrow> string \<Rightarrow> string \<Rightarrow> string \<Rightarrow> stream_reply \<Rightarrow> chat \<Rightarrow> chat \<times> effect list" where
  "handleTranslate R sessionId filename lang reply st =
     (if (case translatingPdf st of None \<Rightarrow> False | Some f \<Rightarrow> f \<noteq> []) \<or> loading st then (st, [])
      else
        let userMsg = \<lparr>role = User,
                       content = ''Translate '' @ [CHR 0x22] @ filename @ [CHR 0x22] @ '' to '' @ lang\<rparr>;
            snapshotBefore = messages st;
            st1 = st\<lparr>showPdfLibrary := False,
                     translatingPdf := Some filename,
                     messages := messages st @ [userMsg, \<lparr>role = Assistant, content = []\<rparr>],
                     loading := True\<rparr>;
            request = TranslateStreamRequest filename lang;
            (thrown, fullText, shown) = consume R reply ([], messages st1);
            st2 = st1\<lparr>messages := shown\<rparr>
        in (case thrown of
              Some e \<Rightarrow>
                (st2\<lparr>messages :=
                        replace_last
                          \<lparr>role = Assistant, content = ''Error: Translation failed. Please try again.''\<rparr>
                          (messages st2),
                      loading := False,
                      translatingPdf := None\<rparr>,
                 [request])
            | None \<Rightarrow>
                (st2\<lparr>loading := False, translatingPdf := None\<rparr>,
                 [request] @
                 (if trim fullText \<noteq> []
                  then [SaveSession sessionId
                          (snapshotBefore @ [userMsg, \<lparr>role = Assistant, content = fullText\<rparr>])]
                  else []))))"

section \<open>The PDF library (chat.tsx and file-upload.tsx)\<close>

text \<open>The initial values of the component's \<open>useState\<close> and \<open>useRef\<close> calls.\<close>

definition initial_chat :: "message list \<Rightarrow> chat" where
  "initial_chat initialMessages =
     \<lparr>messages = initialMessages, input = [], loading = False, suggestions = [],
      suggestionsLoading = False, uploadStatus = Idle, uploadedFileName = None,
      uploadedFileServerName = None, pdfLibrary = [], previewPdfName = None,
      showPdfLibrary = False, mergeSelected = [], mergeName = [], mergeLoading = False,
      translatingPdf = None, pendingUploadRef = None\<rparr>"

definition endsWith :: "string \<Rightarrow> string \<Rightarrow> bool" where
  "endsWith s p = (length p \<le> length s \<and> drop (length s - length p) s = p)"

text \<open>
  The updater of the library at each of its three insertions (upload timed out, upload
  done, merge): \<open>[...prev.filter((p) => p.name !== n), entry]\<close>, the entry having the
  name \<open>n\<close>; and the updater of a deletion.
\<close>

definition insert_entry :: "PdfEntry \<Rightarrow> PdfEntry list \<Rightarrow> PdfEntry list" where
  "insert_entry entry prev = filter (\<lambda>p. name p \<noteq> name entry) prev @ [entry]"

definition remove_entry :: "string \<Rightarrow> PdfEntry list \<Rightarrow> PdfEntry list" where
  "remove_entry n prev = filter (\<lambda>p. name p \<noteq> n) prev"

text \<open>
  The answer to one \<open>/upload/status\<close> request: it throws, it is not ok, or it carries
  \<open>statusData.status\<close>.
\<close>

datatype status_reply = StatusThrows | StatusNotOk | Status string

definition MAX_POLLS :: nat where
  "MAX_POLLS = 30"

text \<open>
  What both the timeout and the status \<open>done\<close> do in \<open>handleFileChange\<close>: the status
  becomes \<open>success\<close> and the pending upload, if there is one, moves to the library.
\<close>

definition upload_finished :: "string \<Rightarrow> chat \<Rightarrow> chat" where
  "upload_finished serverFilename st =
     (case pendingUploadRef st of
        None \<Rightarrow> st\<lparr>uploadStatus := Success\<rparr>
      | Some (pendingName, pendingUrl) \<Rightarrow>
          st\<lparr>uploadStatus := Success,
             pdfLibrary :=
               insert_entry
                 \<lparr>name = serverFilename, displayName = pendingName, objectUrl = pendingUrl\<rparr>
                 (pdfLibrary st),
             showPdfLibrary := True,
             pendingUploadRef := None\<rparr>)"

text \<open>
  The interval of \<open>handleFileChange\<close>, one call per tick, each tick ending before the
  next one starts; \<open>upstream k\<close> is the answer to the status request of tick \<open>k\<close>. The
  function returns when \<open>clearInterval\<close> is called.
\<close>

function poll_upload :: "(nat \<Rightarrow> status_reply) \<Rightarrow> string \<Rightarrow> nat \<Rightarrow> chat \<Rightarrow> chat" where
  "poll_upload upstream serverFilename pollCount st =
     (if MAX_POLLS \<le> pollCount + 1 then upload_finished serverFilename st
      else (case upstream (pollCount + 1) of
              Status s \<Rightarrow>
                if s = ''done'' then upload_finished serverFilename st
                else if s = ''error'' then st\<lparr>uploadStatus := Error\<rparr>
                else poll_upload upstream serverFilename (pollCount + 1) st
            | _ \<Rightarrow> poll_upload upstream serverFilename (pollCount + 1) st))"
  by pat_completeness auto
termination
  by (relation "measure (\<lambda>(upstream, serverFilename, pollCount, st). MAX_POLLS - pollCount)") auto

declare poll_upload.simps [simp del]

text \<open>The interval of \<open>handleMerge\<close>, with its bound written as the literal 30.\<close>

function poll_merge :: "(nat \<Rightarrow> status_reply) \<Rightarrow> nat \<Rightarrow> chat \<Rightarrow> chat" where
  "poll_merge upstream count st =
     (if 30 \<le> count + 1 then st\<lparr>uploadStatus := Success\<rparr>
      else (case upstream (count + 1) of
              Status s \<Rightarrow>
                if s = ''done'' then st\<lparr>uploadStatus := Success\<rparr>
                else if s = ''error'' then st\<lparr>uploadStatus := Error\<rparr>
                else poll_merge upstream (count + 1) st
            | _ \<Rightarrow> poll_merge upstream (count + 1) st))"
  by pat_completeness auto
termination
  by (relation "measure (\<lambda>(upstream, count, st). 30 - count)") auto

declare poll_merge.simps [simp del]

text \<open>
  The answer to the upload request: \<open>fetch\<close> or \<open>json()\<close> throws, the response is not ok,
  or it carries \<open>data.filename\<close> (\<open>None\<close>: absent). The file is its name and the blob
  URL that \<open>URL.createObjectURL\<close> gives it.
\<close>

datatype upload_reply = UploadThrows | UploadNotOk | UploadOk "string option"

definition handleFileChange ::
  "(string \<times> string) option \<Rightarrow> upload_reply \<Rightarrow> (nat \<Rightarrow> status_reply) \<Rightarrow> chat \<Rightarrow> chat" where
  "handleFileChange file reply upstream st =
     (case file of
        None \<Rightarrow> st
      | Some (fileName, objUrl) \<Rightarrow>
          if \<not> endsWith fileName ''.pdf''
          then st\<lparr>uploadStatus := Error, uploadedFileName := Some ''Only PDF files are accepted''\<rparr>
          else
            let st1 = st\<lparr>uploadedFileName := Some fileName,
                         uploadStatus := Uploading,
                         pendingUploadRef := Some (fileName, objUrl)\<rparr>
            in (case reply of
                  UploadOk filename \<Rightarrow>
                    let serverFilename = (case filename of Some f \<Rightarrow> f | None \<Rightarrow> fileName)
                    in poll_upload upstream serverFilename 0
                         (st1\<lparr>uploadedFileServerName := Some serverFilename,
                              uploadStatus := Embedding\<rparr>)
                | _ \<Rightarrow> st1\<lparr>uploadStatus := Error\<rparr>))"

text \<open>
  \<open>handleDeletePdf\<close>: whether the \<open>DELETE\<close> request throws (\<open>rejected\<close>) changes nothing,
  its \<open>catch\<close> being empty and its response unread.
\<close>

definition handleDeletePdf :: "bool \<Rightarrow> string \<Rightarrow> chat \<Rightarrow> chat \<times> effect list" where
  "handleDeletePdf rejected n st =
     (st\<lparr>pdfLibrary := remove_entry n (pdfLibrary st),
         mergeSelected := filter (\<lambda>m. m \<noteq> n) (mergeSelected st),
         previewPdfName := (if previewPdfName st = Some n then None else previewPdfName st)\<rparr>,
      DeletePdfRequest n #
      (case find (\<lambda>p. name p = n) (pdfLibrary st) of
         None \<Rightarrow> []
       | Some entry \<Rightarrow>
           if startsWith (objectUrl entry) ''blob:'' then [RevokeObjectURL (objectUrl entry)]
           else []))"

text \<open>
  The answer to the merge request: \<open>fetch\<close> or \<open>json()\<close> throws, the response is not ok,
  or it carries \<open>data.filename\<close>. \<open>stamp\<close> is the text of \<open>Date.now()\<close>, and
  \<open>encodeURIComponent\<close> is the runtime's.
\<close>

datatype merge_reply = MergeThrows | MergeNotOk | MergeOk string

definition handleMerge ::
  "(string \<Rightarrow> string) \<Rightarrow> string \<Rightarrow> merge_reply \<Rightarrow> (nat \<Rightarrow> status_reply) \<Rightarrow> chat
     \<Rightarrow> chat \<times> effect list" where
  "handleMerge encodeURIComponent stamp reply upstream st =
     (if length (mergeSelected st) < 2 \<or> mergeLoading st then (st, [])
      else
        let outName = (if trim (mergeName st) \<noteq> [] then trim (mergeName st)
                       else ''merged_'' @ stamp);
            request = MergeRequest (mergeSelected st) outName
        in (case reply of
              MergeOk serverName \<Rightarrow>
                let objectUrl = ''http://localhost:8000/pdf/download/'' @ encodeURIComponent serverName;
                    st1 = st\<lparr>pdfLibrary :=
                               insert_entry
                                 \<lparr>name = serverName, displayName = serverName, objectUrl = objectUrl\<rparr>
                                 (pdfLibrary st),
                             mergeSelected := [],
                             mergeName := [],
                             uploadedFileName := Some serverName,
                             uploadedFileServerName := Some serverName,
                             uploadStatus := Embedding,
                             mergeLoading := False\<rparr>
                in (poll_merge upstream 0 st1, [request])
            | _ \<Rightarrow>
                (st\<lparr>mergeLoading := False\<rparr>,
                 [request,
                  Alert ''Merge failed. Please check that the selected PDFs exist on the server.''])))"

text \<open>
  \<open>PDFLibraryPanel\<close> (file-upload.tsx) keeps its own selection; \<open>handleMergeClick\<close>
  returns the panel's new selection and name, and its calls of \<open>onMerge\<close>.
\<close>

record panel =
  panelMergeSelected :: "string list"
  panelMergeName :: string

definition handleMergeClick :: "string \<Rightarrow> bool \<Rightarrow> panel \<Rightarrow> panel \<times> (string list \<times> string) list" where
  "handleMergeClick stamp mergeLoading_prop pn =
     (if length (panelMergeSelected pn) < 2 \<or> mergeLoading_prop then (pn, [])
      else
        let outName = (if trim (panelMergeName pn) \<noteq> [] then trim (panelMergeName pn)
                       else ''merged_'' @ stamp)
        in (\<lparr>panelMergeSelected = [], panelMergeName = []\<rparr>,
            [(panelMergeSelected pn, outName)]))"

section \<open>The session list (app-shell.tsx)\<close>

record app =
  sessions :: "session list"
  activeSessionId :: string
  historyLoading :: bool

definition initial_app :: app where
  "initial_app = \<lparr>sessions = [], activeSessionId = [], historyLoading = True\<rparr>"

text \<open>\<open>createSession\<close>, given what \<open>generateId()\<close> and \<open>Date.now()\<close> return.\<close>

definition createSession :: "string \<Rightarrow> nat \<Rightarrow> session" where
  "createSession generatedId now =
     \<lparr>session_id = generatedId, title = ''New Chat'', history = [], createdAt = now\<rparr>"

text \<open>
  The answer to the history request: \<open>fetch\<close> or \<open>json()\<close> throws (or the request is
  aborted after 10 s), or it carries \<open>data.sessions\<close> (\<open>None\<close>: absent).
\<close>

datatype history_reply = HistoryThrows | HistoryOk "session list option"

definition load_history :: "history_reply \<Rightarrow> string \<Rightarrow> nat \<Rightarrow> app \<Rightarrow> app" where
  "load_history reply generatedId now st =
     (case reply of
        HistoryOk data_sessions \<Rightarrow>
          let loaded = (case data_sessions of Some l \<Rightarrow> l | None \<Rightarrow> []) in
          if length loaded > 0
          then st\<lparr>sessions := loaded, activeSessionId := session_id (loaded ! 0),
                  historyLoading := False\<rparr>
          else
            let first = createSession generatedId now
            in st\<lparr>sessions := [first], activeSessionId := session_id first, historyLoading := False\<rparr>
      | HistoryThrows \<Rightarrow>
          let first = createSession generatedId now
          in st\<lparr>sessions := [first], activeSessionId := session_id first, historyLoading := False\<rparr>)"

definition handleNewChat :: "string \<Rightarrow> nat \<Rightarrow> app \<Rightarrow> app" where
  "handleNewChat generatedId now st =
     (let s = createSession generatedId now
      in st\<lparr>sessions := s # sessions st, activeSessionId := session_id s\<rparr>)"

definition handleSelectSession :: "string \<Rightarrow> app \<Rightarrow> app" where
  "handleSelectSession i st = st\<lparr>activeSessionId := i\<rparr>"

text \<open>The updater of \<open>handleDeleteSession\<close>; the \<open>DELETE\<close> request is fire-and-forget.\<close>

definition handleDeleteSession :: "string \<Rightarrow> string \<Rightarrow> nat \<Rightarrow> app \<Rightarrow> app" where
  "handleDeleteSession i generatedId now st =
     (let next = filter (\<lambda>s. session_id s \<noteq> i) (sessions st) in
      if i = activeSessionId st then
        if length next > 0 then st\<lparr>sessions := next, activeSessionId := session_id (next ! 0)\<rparr>
        else
          let fresh = createSession generatedId now
          in st\<lparr>sessions := [fresh], activeSessionId := session_id fresh\<rparr>
      else st\<lparr>sessions := next\<rparr>)"

text \<open>The character U+2026 is above 255; it is written here as its three UTF-8 bytes.\<close>

definition ellipsis :: string where
  "ellipsis = [CHR 0xE2, CHR 0x80, CHR 0xA6]"

definition retitle :: "message list \<Rightarrow> string \<Rightarrow> string" where
  "retitle msgs old =
     (case find (\<lambda>m. role m = User) msgs of
        None \<Rightarrow> old
      | Some firstUser \<Rightarrow>
          take 42 (content firstUser) @ (if length (content firstUser) > 42 then ellipsis else []))"

definition handleMessagesChange :: "string \<Rightarrow> message list \<Rightarrow> app \<Rightarrow> app" where
  "handleMessagesChange sessionId msgs st =
     st\<lparr>sessions :=
          map (\<lambda>s. if session_id s \<noteq> sessionId then s
                    else s\<lparr>history := msgs, title := retitle msgs (title s)\<rparr>)
            (sessions st)\<rparr>"

text \<open>
  \<open>saveSessionToBackend\<close>: the body of the \<open>POST\<close> to \<open>/history/session\<close>, if one is
  sent: user, session, title, messages, creation time.
\<close>

type_synonym history_post = "string \<times> string \<times> string \<times> message list \<times> nat"

definition saveSessionToBackend ::
  "string \<Rightarrow> session \<Rightarrow> message list option \<Rightarrow> history_post list" where
  "saveSessionToBackend userId s overrideMessages =
     (if userId = [] then []
      else [(userId, session_id s, title s,
             (case overrideMessages of Some m \<Rightarrow> m | None \<Rightarrow> history s),
             createdAt s)])"

text \<open>
  \<open>handleSaveSession\<close>; \<open>sessionsRef.current\<close> holds the sessions of the last render,
  those of the state the handler is called in.
\<close>

definition handleSaveSession ::
  "string \<Rightarrow> string \<Rightarrow> message list \<Rightarrow> app \<Rightarrow> app \<times> history_post list" where
  "handleSaveSession userId sessionId finalMessages st =
     (st\<lparr>sessions :=
           map (\<lambda>s. if session_id s \<noteq> sessionId then s
                     else s\<lparr>history := finalMessages, title := retitle finalMessages (title s)\<rparr>)
             (sessions st)\<rparr>,
      (case find (\<lambda>s. session_id s = sessionId) (sessions st) of
         None \<Rightarrow> []
       | Some fromRef \<Rightarrow> saveSessionToBackend userId fromRef (Some finalMessages)))"

text \<open>
  What can happen once the history is loaded. The sidebar offers to select only a
  session it lists (here by its position; a position beyond the list is no button); the
  other handlers are taken with any argument.
\<close>

datatype app_event =
    NewChat string nat
  | SelectListed nat
  | DeleteSession string string nat
  | MessagesChange string "message list"
  | SaveSessionCall string string "message list"

fun app_step :: "app \<Rightarrow> app_event \<Rightarrow> app" where
  "app_step st (NewChat generatedId now) = handleNewChat generatedId now st"
| "app_step st (SelectListed k) =
     (if k < length (sessions st) then handleSelectSession (session_id (sessions st ! k)) st else st)"
| "app_step st (DeleteSession i generatedId now) = handleDeleteSession i generatedId now st"
| "app_step st (MessagesChange sessionId msgs) = handleMessagesChange sessionId msgs st"
| "app_step st (SaveSessionCall userId sessionId msgs) = fst (handleSaveSession userId sessionId msgs st)"

definition app_run :: "history_reply \<Rightarrow> string \<Rightarrow> nat \<Rightarrow> app_event list \<Rightarrow> app" where
  "app_run reply generatedId now events = foldl app_step (load_history reply generatedId now initial_app) events"

text \<open>The invariant of the session list: it is not empty and holds the active session.\<close>

definition app_ok :: "app \<Rightarrow> bool" where
  "app_ok st = (sessions st \<noteq> [] \<and> activeSessionId st \<in> set (map session_id (sessions st)))"

section \<open>Runs of the chat component\<close>

text \<open>
  The handlers that change the library, or the state its handlers read, each with what
  the outside answers. The check box of the \<open>k\<close>-th entry of the library adds its name to
  the merge selection or removes it.
\<close>

datatype chat_event =
    FileChange "(string \<times> string) option" upload_reply "nat \<Rightarrow> status_reply"
  | DeletePdf bool string
  | Merge "string \<Rightarrow> string" string merge_reply "nat \<Rightarrow> status_reply"
  | Send "string option" stream_reply suggestions_reply
  | Translate string string stream_reply
  | ToggleMerge nat bool
  | TypeMergeName string
  | TypeInput string

fun chat_step :: "'n runtime \<Rightarrow> string \<Rightarrow> chat \<Rightarrow> chat_event \<Rightarrow> chat" where
  "chat_step R sessionId st (FileChange file reply upstream) = handleFileChange file reply upstream st"
| "chat_step R sessionId st (DeletePdf rejected n) = fst (handleDeletePdf rejected n st)"
| "chat_step R sessionId st (Merge enc stamp reply upstream) = fst (handleMerge enc stamp reply upstream st)"
| "chat_step R sessionId st (Send overrideText reply sug) = fst (sendMessage R sessionId overrideText reply sug st)"
| "chat_step R sessionId st (Translate filename lang reply) =
     fst (handleTranslate R sessionId filename lang reply st)"
| "chat_step R sessionId st (ToggleMerge k checked) =
     (if k < length (pdfLibrary st)
      then st\<lparr>mergeSelected :=
                (if checked then mergeSelected st @ [name (pdfLibrary st ! k)]
                 else filter (\<lambda>m. m \<noteq> name (pdfLibrary st ! k)) (mergeSelected st))\<rparr>
      else st)"
| "chat_step R sessionId st (TypeMergeName v) = st\<lparr>mergeName := v\<rparr>"
| "chat_step R sessionId st (TypeInput v) = st\<lparr>input := v\<rparr>"

definition chat_run :: "'n runtime \<Rightarrow> string \<Rightarrow> message list \<Rightarrow> chat_event list \<Rightarrow> chat" where
  "chat_run R sessionId initialMessages events =
     foldl (chat_step R sessionId) (initial_chat initialMessages) events"

text \<open>
  The library itself changes only through the updaters of its four \<open>setPdfLibrary\<close>
  calls, three insertions and one removal, in whatever order the handlers and their
  timers come to run.
\<close>

datatype library_update = Inserted PdfEntry | Removed string

fun apply_update :: "PdfEntry list \<Rightarrow> library_update \<Rightarrow> PdfEntry list" where
  "apply_update prev (Inserted entry) = insert_entry entry prev"
| "apply_update prev (Removed n) = remove_entry n prev"

text \<open>Polling exhausts its budget when no tick before the last gets \<open>done\<close> or \<open>error\<close>.\<close>

definition never_settles :: "(nat \<Rightarrow> status_reply) \<Rightarrow> bool" where
  "never_settles upstream =
     list_all (\<lambda>k. upstream k \<noteq> Status ''done'' \<and> upstream k \<noteq> Status ''error'') [1..<30]"

section \<open>What a response contributes to the answer\<close>

text \<open>
  The text of a token event: the payload parses to an object whose \<open>type\<close> is the
  string \<open>token\<close> and whose \<open>data\<close> is truthy and converts to a string.
\<close>

definition token_text :: "'n runtime \<Rightarrow> string \<Rightarrow> string option" where
  "token_text R data =
     (case json_parse R data of
        Some (JObj kvs) \<Rightarrow>
          if map_of kvs ''type'' = Some (JStr ''token'')
          then (case map_of kvs ''data'' of
                  Some d \<Rightarrow>
                    if truthy R d
                    then (case to_string R d of Inr tok \<Rightarrow> Some tok | Inl e \<Rightarrow> None)
                    else None
                | None \<Rightarrow> None)
          else None
      | _ \<Rightarrow> None)"

text \<open>The terminating line, and the text a line adds to the answer (none: the empty text).\<close>

definition is_done :: "string \<Rightarrow> bool" where
  "is_done line = (startsWith line ''data: '' \<and> trim (drop 6 line) = ''[DONE]'')"

definition line_token :: "'n runtime \<Rightarrow> string \<Rightarrow> string" where
  "line_token R line =
     (if startsWith line ''data: ''
      then (case token_text R (trim (drop 6 line)) of Some tok \<Rightarrow> tok | None \<Rightarrow> [])
      else [])"

text \<open>The text of the lines of one read, up to its first terminating line.\<close>

definition batch_text :: "'n runtime \<Rightarrow> string list \<Rightarrow> string" where
  "batch_text R lines = concat (map (line_token R) (takeWhile (\<lambda>l. \<not> is_done l) lines))"

text \<open>The text that the reads of a body add up to, read by read, until the body ends or throws.\<close>

fun received_text :: "'n runtime \<Rightarrow> read_result list \<Rightarrow> string \<Rightarrow> string" where
  "received_text R [] sseBuffer = []"
| "received_text R (ReadThrows # rest) sseBuffer = []"
| "received_text R (Chunk v # rest) sseBuffer =
     (let lines = split_newline (sseBuffer @ v)
      in batch_text R (butlast lines) @ received_text R rest (last lines))"

text \<open>
  A generation stream fails when the request is rejected, the response is not ok or has
  no body, or a read throws.
\<close>

fun stream_fails :: "stream_reply \<Rightarrow> bool" where
  "stream_fails FetchRejects = True"
| "stream_fails (Response ok None) = True"
| "stream_fails (Response ok (Some chunks)) = (\<not> ok \<or> ReadThrows \<in> set chunks)"

text \<open>
  The complete answer of a response, and the calls of \<open>onSaveSession\<close> among the
  effects of a handler.
\<close>

fun answer_text :: "'n runtime \<Rightarrow> stream_reply \<Rightarrow> string" where
  "answer_text R (Response ok (Some chunks)) = received_text R chunks []"
| "answer_text R reply = []"

fun is_save :: "effect \<Rightarrow> bool" where
  "is_save (SaveSession sessionId msgs) = True"
| "is_save e = False"

text \<open>
  The token event of the protocol, in the spec's words (\<open>{"type":"token","data": "..."}\<close>):
  an object whose \<open>type\<close> is the string \<open>token\<close> and whose \<open>data\<close> is a string.
\<close>

definition spec_token_shape :: "'n json \<Rightarrow> bool" where
  "spec_token_shape v =
     (case v of
        JObj kvs \<Rightarrow>
          map_of kvs ''type'' = Some (JStr ''token'')
          \<and> (case map_of kvs ''data'' of Some (JStr s) \<Rightarrow> True | _ \<Rightarrow> False)
      | _ \<Rightarrow> False)"

section \<open>Samples\<close>

text \<open>
  A token event as the server writes it, and a runtime whose \<open>JSON.parse\<close> reads the two
  events of the samples as the real one does and rejects any other text.
\<close>

definition token_event :: "string \<Rightarrow> string" where
  "token_event s = ''data: {\"type\":\"token\",\"data\":\"'' @ s @ ''\"}''"

definition sample_runtime :: "nat runtime" where
  "sample_runtime =
     \<lparr>json_parse =
        (\<lambda>s. if s = drop 6 (token_event ''Hello'')
              then Some (JObj [(''type'', JStr ''token''), (''data'', JStr ''Hello'')])
              else if s = drop 6 (token_event ''!'')
              then Some (JObj [(''type'', JStr ''token''), (''data'', JStr ''!'')])
              else None),
      number_truthy = (\<lambda>n. n \<noteq> 0),
      number_text = (\<lambda>n. [])\<rparr>"

text \<open>A token event cut short by the upstream.\<close>

definition truncated_event :: string where
  "truncated_event = ''data: {\"type\":\"tok''"

text \<open>
  Three responses to a chat request: one complete, in two reads; one with a token event
  in a read after the one of its terminating line; one whose second read throws after a
  first token.
\<close>

definition complete_response :: stream_reply where
  "complete_response =
     Response True (Some [Chunk (token_event ''Hello'' @ [newline]),
                          Chunk (token_event ''!'' @ [newline] @ ''data: [DONE]'' @ [newline])])"

definition late_token_response :: stream_reply where
  "late_token_response =
     Response True (Some [Chunk (token_event ''Hello'' @ [newline] @ ''data: [DONE]'' @ [newline]),
                          Chunk (token_event ''!'' @ [newline])])"

definition broken_response :: stream_reply where
  "broken_response = Response True (Some [Chunk (token_event ''Hello'' @ [newline]), ReadThrows])"

text \<open>
  Two events whose \<open>data\<close> is no string, a number and an object, and a runtime whose
  \<open>JSON.parse\<close> reads them as the real one does (and rejects any other text), with the
  text of the number 5.
\<close>

definition number_event :: string where
  "number_event = ''data: {\"type\":\"token\",\"data\":5}''"

definition object_event :: string where
  "object_event = ''data: {\"type\":\"token\",\"data\":{}}''"

definition loose_runtime :: "nat runtime" where
  "loose_runtime =
     \<lparr>json_parse =
        (\<lambda>s. if s = drop 6 number_event
              then Some (JObj [(''type'', JStr ''token''), (''data'', JNum 5)])
              else if s = drop 6 object_event
              then Some (JObj [(''type'', JStr ''token''), (''data'', JObj [])])
              else None),
      number_truthy = (\<lambda>n. n \<noteq> 0),
      number_text = (\<lambda>n. if n = 5 then ''5'' else [])\<rparr>"

text \<open>A complete response with a truncated event between its two token events.\<close>

definition noisy_response :: stream_reply where
  "noisy_response =
     Response True
       (Some [Chunk (token_event ''Hello'' @ [newline] @ truncated_event @ [newline] @
                     token_event ''!'' @ [newline] @ ''data: [DONE]'' @ [newline])])"

text \<open>A component that holds one earlier exchange.\<close>

definition earlier_chat :: chat where
  "earlier_chat =
     initial_chat [\<lparr>role = User, content = ''Hi''\<rparr>, \<lparr>role = Assistant, content = ''Hello''\<rparr>]"

text \<open>A component with two uploaded documents, then with one and with both selected.\<close>

definition two_pdfs :: chat where
  "two_pdfs = (initial_chat [])\<lparr>pdfLibrary :=
     [\<lparr>name = ''a.pdf'', displayName = ''a.pdf'', objectUrl = ''blob:a''\<rparr>,
      \<lparr>name = ''b.pdf'', displayName = ''b.pdf'', objectUrl = ''blob:b''\<rparr>]\<rparr>"

definition one_selected :: chat where
  "one_selected = two_pdfs\<lparr>mergeSelected := [''a.pdf'']\<rparr>"

definition two_selected :: chat where
  "two_selected = two_pdfs\<lparr>mergeSelected := [''a.pdf'', ''b.pdf'']\<rparr>"

section \<open>Properties of the session list\<close>

lemma load_history_ok: "app_ok (load_history reply g n st)"
proof (cases reply)
  case HistoryThrows
  then show ?thesis by (simp add: app_ok_def load_history_def createSession_def Let_def)
next
  case (HistoryOk d)
  show ?thesis
  proof (cases "case d of Some l \<Rightarrow> l | None \<Rightarrow> []")
    case Nil
    with HistoryOk show ?thesis by (simp add: app_ok_def load_history_def createSession_def Let_def)
  next
    case (Cons a l)
    with HistoryOk show ?thesis by (simp add: app_ok_def load_history_def Let_def)
  qed
qed

lemma handleDeleteSession_ok:
  assumes "app_ok st"
  shows "app_ok (handleDeleteSession i g n st)"
proof (cases "filter (\<lambda>s. session_id s \<noteq> i) (sessions st)")
  case Nil
  have "i = activeSessionId st"
  proof (rule ccontr)
    assume "i \<noteq> activeSessionId st"
    with assms have "activeSessionId st \<in> session_id ` set (filter (\<lambda>s. session_id s \<noteq> i) (sessions st))"
      by (auto simp: app_ok_def)
    with Nil show False by simp
  qed
  with Nil show ?thesis
    by (simp add: handleDeleteSession_def app_ok_def createSession_def)
next
  case (Cons a l)
  show ?thesis
  proof (cases "i = activeSessionId st")
    case True
    with Cons show ?thesis by (simp add: handleDeleteSession_def app_ok_def)
  next
    case False
    with assms have "activeSessionId st \<in> session_id ` set (filter (\<lambda>s. session_id s \<noteq> i) (sessions st))"
      by (auto simp: app_ok_def)
    with False Cons show ?thesis by (simp add: handleDeleteSession_def app_ok_def)
  qed
qed

lemma handleNewChat_ok: "app_ok (handleNewChat g n st)"
  by (simp add: app_ok_def handleNewChat_def createSession_def Let_def)

lemma select_listed_ok:
  "app_ok st \<Longrightarrow> k < length (sessions st) \<Longrightarrow> app_ok (handleSelectSession (session_id (sessions st ! k)) st)"
  by (simp add: app_ok_def handleSelectSession_def)

lemma map_keeps_ids:
  "map session_id (map (\<lambda>s. if session_id s \<noteq> i then s else s\<lparr>history := h, title := t s\<rparr>) l)
     = map session_id l"
  by (induction l) simp_all

lemma handleMessagesChange_ok: "app_ok st \<Longrightarrow> app_ok (handleMessagesChange i msgs st)"
  using map_keeps_ids [where i=i and h=msgs and t="\<lambda>s. retitle msgs (title s)" and l="sessions st"]
  by (simp add: app_ok_def handleMessagesChange_def)

lemma handleSaveSession_ok: "app_ok st \<Longrightarrow> app_ok (fst (handleSaveSession u i msgs st))"
  using map_keeps_ids [where i=i and h=msgs and t="\<lambda>s. retitle msgs (title s)" and l="sessions st"]
  by (simp add: app_ok_def handleSaveSession_def)

lemma app_step_ok: "app_ok st \<Longrightarrow> app_ok (app_step st ev)"
  by (cases ev)
     (simp_all add: handleNewChat_ok select_listed_ok handleDeleteSession_ok
        handleMessagesChange_ok handleSaveSession_ok)

lemma foldl_app_step_ok: "app_ok st \<Longrightarrow> app_ok (foldl app_step st events)"
  by (induction events arbitrary: st) (simp_all add: app_step_ok)

text \<open>
  C10. Once the history is loaded, whatever the answer of the history request and
  whatever happens afterwards (new chats, selections in the sidebar, deletions, message
  and save callbacks), the session list is not empty and the active session id is the id
  of a session of the list. Loading no session creates a fresh one, which is active;
  deleting the active session activates the first remaining one, or, when none remains,
  a newly created session that replaces the list.
\<close>

theorem session_list_invariant:
  "app_ok (app_run reply g n events)
   \<and> sessions (load_history (HistoryOk (Some [])) g n st) = [createSession g n]
   \<and> activeSessionId (load_history (HistoryOk (Some [])) g n st) = g
   \<and> handleDeleteSession (activeSessionId st) g' n' st =
       (if filter (\<lambda>s. session_id s \<noteq> activeSessionId st) (sessions st) = []
        then st\<lparr>sessions := [createSession g' n'], activeSessionId := g'\<rparr>
        else st\<lparr>sessions := filter (\<lambda>s. session_id s \<noteq> activeSessionId st) (sessions st),
                activeSessionId :=
                  session_id (hd (filter (\<lambda>s. session_id s \<noteq> activeSessionId st) (sessions st)))\<rparr>)"
proof -
  have inv: "app_ok (app_run reply g n events)"
    unfolding app_run_def by (rule foldl_app_step_ok) (rule load_history_ok)
  have l1: "sessions (load_history (HistoryOk (Some [])) g n st) = [createSession g n]"
    by (simp add: load_history_def Let_def)
  have l2: "activeSessionId (load_history (HistoryOk (Some [])) g n st) = g"
    by (simp add: load_history_def createSession_def Let_def)
  have d: "handleDeleteSession (activeSessionId st) g' n' st =
       (if filter (\<lambda>s. session_id s \<noteq> activeSessionId st) (sessions st) = []
        then st\<lparr>sessions := [createSession g' n'], activeSessionId := g'\<rparr>
        else st\<lparr>sessions := filter (\<lambda>s. session_id s \<noteq> activeSessionId st) (sessions st),
                activeSessionId :=
                  session_id (hd (filter (\<lambda>s. session_id s \<noteq> activeSessionId st) (sessions st)))\<rparr>)"
    by (cases "filter (\<lambda>s. session_id s \<noteq> activeSessionId st) (sessions st)")
       (simp_all add: handleDeleteSession_def createSession_def)
  from inv l1 l2 d show ?thesis by blast
qed

section \<open>Properties of the PDF library\<close>

lemma insert_entry_distinct:
  "distinct (map name prev) \<Longrightarrow> distinct (map name (insert_entry e prev))"
  by (auto simp: insert_entry_def distinct_map_filter)

lemma remove_entry_distinct:
  "distinct (map name prev) \<Longrightarrow> distinct (map name (remove_entry n prev))"
  by (simp add: remove_entry_def distinct_map_filter)

lemma upload_finished_distinct:
  "distinct (map name (pdfLibrary st)) \<Longrightarrow> distinct (map name (pdfLibrary (upload_finished f st)))"
  by (cases "pendingUploadRef st") (auto simp: upload_finished_def insert_entry_distinct)

lemma poll_upload_distinct:
  "distinct (map name (pdfLibrary st)) \<Longrightarrow> distinct (map name (pdfLibrary (poll_upload u f c st)))"
proof (induction u f c st rule: poll_upload.induct)
  case (1 upstream serverFilename pollCount st)
  show ?case
  proof (cases "MAX_POLLS \<le> pollCount + 1")
    case True
    then show ?thesis
      using "1.prems" by (subst poll_upload.simps) (simp add: upload_finished_distinct)
  next
    case False
    show ?thesis
    proof (cases "upstream (pollCount + 1)")
      case StatusThrows
      with False "1.IH"(1) "1.prems" show ?thesis by (subst poll_upload.simps) simp
    next
      case StatusNotOk
      with False "1.IH"(2) "1.prems" show ?thesis by (subst poll_upload.simps) simp
    next
      case (Status s)
      with False "1.IH"(3) "1.prems" show ?thesis
        by (subst poll_upload.simps) (simp add: upload_finished_distinct)
    qed
  qed
qed

lemma poll_merge_library: "pdfLibrary (poll_merge u c st) = pdfLibrary st"
proof (induction u c st rule: poll_merge.induct)
  case (1 upstream count st)
  show ?case
  proof (cases "30 \<le> count + 1")
    case True
    then show ?thesis by (subst poll_merge.simps) simp
  next
    case False
    show ?thesis
    proof (cases "upstream (count + 1)")
      case StatusThrows
      with False "1.IH"(1) show ?thesis by (subst poll_merge.simps) simp
    next
      case StatusNotOk
      with False "1.IH"(2) show ?thesis by (subst poll_merge.simps) simp
    next
      case (Status s)
      with False "1.IH"(3) show ?thesis by (subst poll_merge.simps) simp
    qed
  qed
qed


lemma handleFileChange_distinct:
  assumes "distinct (map name (pdfLibrary st))"
  shows "distinct (map name (pdfLibrary (handleFileChange file reply u st)))"
proof (cases "file")
  case None
  with assms show ?thesis by (simp add: handleFileChange_def)
next
  case (Some fl)
  obtain fileName objUrl where fl: "fl = (fileName, objUrl)" by (cases fl)
  show ?thesis
  proof (cases "endsWith fileName ''.pdf''")
    case False
    with Some fl assms show ?thesis by (simp add: handleFileChange_def)
  next
    case True
    show ?thesis
    proof (cases reply)
      case (UploadOk filename)
      with True Some fl assms show ?thesis
        by (simp add: handleFileChange_def Let_def poll_upload_distinct)
    qed (use True Some fl assms in \<open>simp_all add: handleFileChange_def\<close>)
  qed
qed

lemma handleDeletePdf_library:
  "pdfLibrary (fst (handleDeletePdf r n st)) = remove_entry n (pdfLibrary st)"
  by (simp add: handleDeletePdf_def)

lemma handleMerge_library:
  "pdfLibrary (fst (handleMerge enc stamp reply u st)) =
     (if length (mergeSelected st) < 2 \<or> mergeLoading st then pdfLibrary st
      else (case reply of
              MergeOk serverName \<Rightarrow>
                insert_entry \<lparr>name = serverName, displayName = serverName,
                  objectUrl = ''http://localhost:8000/pdf/download/'' @ enc serverName\<rparr> (pdfLibrary st)
            | _ \<Rightarrow> pdfLibrary st))"
  by (cases reply) (simp_all add: handleMerge_def Let_def poll_merge_library)

lemma sendMessage_library:
  "pdfLibrary (fst (sendMessage R sid ov reply sug st)) = pdfLibrary st"
  by (simp add: sendMessage_def Let_def split: prod.splits option.splits)

lemma handleTranslate_library:
  "pdfLibrary (fst (handleTranslate R sid f l reply st)) = pdfLibrary st"
  by (simp add: handleTranslate_def Let_def split: prod.splits option.splits)

lemma chat_step_distinct:
  "distinct (map name (pdfLibrary st)) \<Longrightarrow> distinct (map name (pdfLibrary (chat_step R sid st ev)))"
proof (cases ev)
  case (Merge enc stamp reply u)
  assume "distinct (map name (pdfLibrary st))"
  with Merge show ?thesis
    by (cases reply) (simp_all add: handleMerge_library insert_entry_distinct)
qed (simp_all add: handleFileChange_distinct handleDeletePdf_library remove_entry_distinct
       sendMessage_library handleTranslate_library)

lemma chat_steps_distinct:
  "distinct (map name (pdfLibrary st)) \<Longrightarrow>
     distinct (map name (pdfLibrary (foldl (chat_step R sid) st events)))"
  by (induction events arbitrary: st) (simp_all add: chat_step_distinct)

lemma apply_updates_distinct:
  "distinct (map name prev) \<Longrightarrow> distinct (map name (foldl apply_update prev us))"
proof (induction us arbitrary: prev)
  case Nil
  then show ?case by simp
next
  case (Cons u us)
  then show ?case by (cases u) (simp_all add: insert_entry_distinct remove_entry_distinct)
qed

text \<open>
  C9. The library never holds two entries with the same server-side name: from the
  empty library of a new component, after any sequence of uploads (finished or timed
  out), merges, deletions and exchanges, and after any sequence of the updaters of its
  \<open>setPdfLibrary\<close> calls, the names of its entries are distinct, each insertion
  removing the entries with the inserted name before it appends.
\<close>

theorem library_names_distinct:
  "distinct (map name (pdfLibrary (chat_run R sessionId initialMessages events)))
   \<and> distinct (map name (foldl apply_update [] updates))"
proof
  show "distinct (map name (pdfLibrary (chat_run R sessionId initialMessages events)))"
    unfolding chat_run_def by (rule chat_steps_distinct) (simp add: initial_chat_def)
  show "distinct (map name (foldl apply_update [] updates))"
    by (rule apply_updates_distinct) simp
qed

lemma filter_absent: "n \<notin> set (map name lib) \<Longrightarrow> remove_entry n lib = lib"
  by (induction lib) (auto simp: remove_entry_def)

lemma handleDeletePdf_twice:
  "fst (handleDeletePdf r' n (fst (handleDeletePdf r n st))) = fst (handleDeletePdf r n st)"
  by (simp add: handleDeletePdf_def remove_entry_def)

text \<open>
  C7. Deleting a document is idempotent: deleting a name that no entry of the library
  has leaves the library as it is, whether the \<open>DELETE\<close> request fails or not (the
  handler has no failing outcome), and deleting a name a second time leaves the
  component in the state the first deletion gave.
\<close>

theorem delete_idempotent:
  "(n \<notin> set (map name (pdfLibrary st)) \<longrightarrow> pdfLibrary (fst (handleDeletePdf r n st)) = pdfLibrary st)
   \<and> fst (handleDeletePdf r' n (fst (handleDeletePdf r n st))) = fst (handleDeletePdf r n st)"
  using filter_absent [of n "pdfLibrary st"] handleDeletePdf_twice [of r' n r st]
  by (simp add: handleDeletePdf_library)

theorem delete_idempotent_witness:
  "''c.pdf'' \<notin> set (map name (pdfLibrary two_pdfs))
   \<and> pdfLibrary (fst (handleDeletePdf False ''c.pdf'' two_pdfs)) = pdfLibrary two_pdfs
   \<and> fst (handleDeletePdf True ''a.pdf'' (fst (handleDeletePdf False ''a.pdf'' two_pdfs)))
       = fst (handleDeletePdf False ''a.pdf'' two_pdfs)
   \<and> map name (pdfLibrary (fst (handleDeletePdf False ''a.pdf'' two_pdfs))) = [''b.pdf'']"
  using delete_idempotent [of "''c.pdf''" two_pdfs False]
    delete_idempotent [of "''a.pdf''" two_pdfs True False]
  by (simp add: two_pdfs_def initial_chat_def handleDeletePdf_def remove_entry_def)

text \<open>
  C4. A merge with fewer than two selected documents is rejected before any request:
  the handler returns with the state unchanged and nothing sent. A merge request, when
  one is sent, carries the selection, which has at least two names. The same holds of
  the panel's \<open>handleMergeClick\<close> and its call of \<open>onMerge\<close>.
\<close>

theorem merge_needs_two:
  "(length (mergeSelected st) < 2 \<longrightarrow> handleMerge enc stamp reply u st = (st, []))
   \<and> (MergeRequest ids out \<in> set (snd (handleMerge enc stamp reply u st))
        \<longrightarrow> 2 \<le> length ids \<and> ids = mergeSelected st)
   \<and> (length (panelMergeSelected pn) < 2 \<longrightarrow> handleMergeClick stamp ml pn = (pn, []))
   \<and> ((ids', out') \<in> set (snd (handleMergeClick stamp ml pn))
        \<longrightarrow> 2 \<le> length ids' \<and> ids' = panelMergeSelected pn)"
proof (intro conjI impI)
  assume "length (mergeSelected st) < 2"
  then show "handleMerge enc stamp reply u st = (st, [])" by (simp add: handleMerge_def)
next
  assume a: "MergeRequest ids out \<in> set (snd (handleMerge enc stamp reply u st))"
  show "2 \<le> length ids"
    using a by (cases reply) (auto simp: handleMerge_def Let_def split: if_splits)
  show "ids = mergeSelected st"
    using a by (cases reply) (auto simp: handleMerge_def Let_def split: if_splits)
next
  assume "length (panelMergeSelected pn) < 2"
  then show "handleMergeClick stamp ml pn = (pn, [])" by (simp add: handleMergeClick_def)
next
  assume a: "(ids', out') \<in> set (snd (handleMergeClick stamp ml pn))"
  show "2 \<le> length ids'"
    using a by (auto simp: handleMergeClick_def Let_def split: if_splits)
  show "ids' = panelMergeSelected pn"
    using a by (auto simp: handleMergeClick_def Let_def split: if_splits)
qed


theorem merge_needs_two_witness:
  "length (mergeSelected one_selected) < 2
   \<and> handleMerge (\<lambda>s. s) ''1'' (MergeOk ''m.pdf'') (\<lambda>k. Status ''done'') one_selected = (one_selected, [])
   \<and> MergeRequest [''a.pdf'', ''b.pdf''] ''merged_1''
        \<in> set (snd (handleMerge (\<lambda>s. s) ''1'' (MergeOk ''m.pdf'') (\<lambda>k. Status ''done'') two_selected))
   \<and> 2 \<le> length [''a.pdf'', ''b.pdf'']
   \<and> length (panelMergeSelected \<lparr>panelMergeSelected = [''a.pdf''], panelMergeName = ''m''\<rparr>) < 2
   \<and> handleMergeClick ''1'' False \<lparr>panelMergeSelected = [''a.pdf''], panelMergeName = ''m''\<rparr>
        = (\<lparr>panelMergeSelected = [''a.pdf''], panelMergeName = ''m''\<rparr>, [])
   \<and> ([''a.pdf'', ''b.pdf''], ''m'')
        \<in> set (snd (handleMergeClick ''1'' False
                  \<lparr>panelMergeSelected = [''a.pdf'', ''b.pdf''], panelMergeName = '' m ''\<rparr>))"
  using merge_needs_two [where st = one_selected and enc = "\<lambda>s. s" and stamp = "''1''"
      and reply = "MergeOk ''m.pdf''" and u = "\<lambda>k. Status ''done''" and ids = "[]" and out = "[]"
      and pn = "\<lparr>panelMergeSelected = [''a.pdf''], panelMergeName = ''m''\<rparr>" and ml = False
      and ids' = "[]" and out' = "[]"]
    merge_needs_two [where st = two_selected and enc = "\<lambda>s. s" and stamp = "''1''"
      and reply = "MergeOk ''m.pdf''" and u = "\<lambda>k. Status ''done''"
      and ids = "[''a.pdf'', ''b.pdf'']" and out = "''merged_1''"
      and pn = "\<lparr>panelMergeSelected = [''a.pdf'', ''b.pdf''], panelMergeName = '' m ''\<rparr>"
      and ml = False and ids' = "[''a.pdf'', ''b.pdf'']" and out' = "''m''"]
  by (simp add: one_selected_def two_selected_def two_pdfs_def initial_chat_def handleMerge_def
      handleMergeClick_def trim_def is_space_def Let_def)


lemma poll_merge_selected: "mergeSelected (poll_merge u c st) = mergeSelected st"
proof (induction u c st rule: poll_merge.induct)
  case (1 upstream count st)
  show ?case
  proof (cases "30 \<le> count + 1")
    case True
    then show ?thesis by (subst poll_merge.simps) simp
  next
    case False
    show ?thesis
    proof (cases "upstream (count + 1)")
      case StatusThrows
      with False "1.IH"(1) show ?thesis by (subst poll_merge.simps) simp
    next
      case StatusNotOk
      with False "1.IH"(2) show ?thesis by (subst poll_merge.simps) simp
    next
      case (Status s)
      with False "1.IH"(3) show ?thesis by (subst poll_merge.simps) simp
    qed
  qed
qed

lemma distinct_names_set:
  "set (map name lib) \<subseteq> set (map name (insert_entry e lib))"
  by (auto simp: insert_entry_def)

text \<open>
  C8, as the code has it. After a successful merge the library is the entries it had
  with another name than the merged document's, in their order, followed by the merged
  entry (its name and display name the server's name, its URL the download URL): an
  entry that had the merged document's name is replaced by the merged entry, which is
  the only entry of that name. So every name of the library is still a name of the
  library, the selected sources among them; and the merge selection is empty.
\<close>

theorem merge_keeps_sources:
  assumes "2 \<le> length (mergeSelected st)" and "\<not> mergeLoading st"
  shows "pdfLibrary (fst (handleMerge enc stamp (MergeOk serverName) u st))
           = filter (\<lambda>p. name p \<noteq> serverName) (pdfLibrary st) @
             [\<lparr>name = serverName, displayName = serverName,
               objectUrl = ''http://localhost:8000/pdf/download/'' @ enc serverName\<rparr>]
         \<and> filter (\<lambda>p. name p = serverName) (pdfLibrary (fst (handleMerge enc stamp (MergeOk serverName) u st)))
           = [\<lparr>name = serverName, displayName = serverName,
               objectUrl = ''http://localhost:8000/pdf/download/'' @ enc serverName\<rparr>]
         \<and> set (map name (pdfLibrary st))
           \<subseteq> set (map name (pdfLibrary (fst (handleMerge enc stamp (MergeOk serverName) u st))))
         \<and> set (mergeSelected st) \<inter> set (map name (pdfLibrary st))
           \<subseteq> set (map name (pdfLibrary (fst (handleMerge enc stamp (MergeOk serverName) u st))))
         \<and> serverName \<in> set (map name (pdfLibrary (fst (handleMerge enc stamp (MergeOk serverName) u st))))
         \<and> filter (\<lambda>p. name p \<noteq> serverName) (pdfLibrary (fst (handleMerge enc stamp (MergeOk serverName) u st)))
             = filter (\<lambda>p. name p \<noteq> serverName) (pdfLibrary st)
         \<and> mergeSelected (fst (handleMerge enc stamp (MergeOk serverName) u st)) = []"
proof -
  let ?e = "\<lparr>name = serverName, displayName = serverName,
             objectUrl = ''http://localhost:8000/pdf/download/'' @ enc serverName\<rparr>"
  let ?lib = "filter (\<lambda>p. name p \<noteq> serverName) (pdfLibrary st) @ [?e]"
  have lib: "pdfLibrary (fst (handleMerge enc stamp (MergeOk serverName) u st)) = ?lib"
    using assms by (simp add: handleMerge_library insert_entry_def)
  have sel: "mergeSelected (fst (handleMerge enc stamp (MergeOk serverName) u st)) = []"
    using assms by (simp add: handleMerge_def Let_def poll_merge_selected)
  have same: "filter (\<lambda>p. name p = serverName) ?lib = [?e]"
    by simp
  have sub: "set (map name (pdfLibrary st)) \<subseteq> set (map name ?lib)"
    by auto
  have mem: "serverName \<in> set (map name ?lib)"
    by simp
  have frame: "filter (\<lambda>p. name p \<noteq> serverName) ?lib = filter (\<lambda>p. name p \<noteq> serverName) (pdfLibrary st)"
    by simp
  from sub have sub2: "set (mergeSelected st) \<inter> set (map name (pdfLibrary st)) \<subseteq> set (map name ?lib)"
    by blast
  show ?thesis
    unfolding lib using sel same sub sub2 mem frame by blast
qed

theorem merge_keeps_sources_witness:
  "2 \<le> length (mergeSelected two_selected) \<and> \<not> mergeLoading two_selected
   \<and> pdfLibrary (fst (handleMerge (\<lambda>s. s) ''1'' (MergeOk ''m.pdf'') (\<lambda>k. Status ''done'') two_selected))
       = [\<lparr>name = ''a.pdf'', displayName = ''a.pdf'', objectUrl = ''blob:a''\<rparr>,
          \<lparr>name = ''b.pdf'', displayName = ''b.pdf'', objectUrl = ''blob:b''\<rparr>,
          \<lparr>name = ''m.pdf'', displayName = ''m.pdf'',
           objectUrl = ''http://localhost:8000/pdf/download/m.pdf''\<rparr>]
   \<and> mergeSelected (fst (handleMerge (\<lambda>s. s) ''1'' (MergeOk ''m.pdf'') (\<lambda>k. Status ''done'') two_selected)) = []
   \<and> pdfLibrary (fst (handleMerge (\<lambda>s. s) ''1'' (MergeOk ''b.pdf'') (\<lambda>k. Status ''done'') two_selected))
       = [\<lparr>name = ''a.pdf'', displayName = ''a.pdf'', objectUrl = ''blob:a''\<rparr>,
          \<lparr>name = ''b.pdf'', displayName = ''b.pdf'',
           objectUrl = ''http://localhost:8000/pdf/download/b.pdf''\<rparr>]"
proof -
  have h1: "2 \<le> length (mergeSelected two_selected)"
    by (simp add: two_selected_def two_pdfs_def initial_chat_def)
  have h2: "\<not> mergeLoading two_selected"
    by (simp add: two_selected_def two_pdfs_def initial_chat_def)
  have lib0: "pdfLibrary two_selected =
      [\<lparr>name = ''a.pdf'', displayName = ''a.pdf'', objectUrl = ''blob:a''\<rparr>,
       \<lparr>name = ''b.pdf'', displayName = ''b.pdf'', objectUrl = ''blob:b''\<rparr>]"
    by (simp add: two_selected_def two_pdfs_def initial_chat_def)
  from merge_keeps_sources [OF h1 h2, where enc = "\<lambda>s. s" and stamp = "''1''"
      and serverName = "''m.pdf''" and u = "\<lambda>k. Status ''done''"]
    merge_keeps_sources [OF h1 h2, where enc = "\<lambda>s. s" and stamp = "''1''"
      and serverName = "''b.pdf''" and u = "\<lambda>k. Status ''done''"]
    h1 h2
  show ?thesis by (simp add: lib0)
qed

text \<open>
  A merge of \<open>a.pdf\<close> and \<open>b.pdf\<close> to which the server gives the name \<open>a.pdf\<close>: the
  entry of the source \<open>a.pdf\<close>, with its local blob, is no longer in the library; the
  merged entry has taken its name.
\<close>

theorem merge_keeps_sources_counterexample:
  "\<lparr>name = ''a.pdf'', displayName = ''a.pdf'', objectUrl = ''blob:a''\<rparr> \<in> set (pdfLibrary two_selected)
   \<and> ''a.pdf'' \<in> set (mergeSelected two_selected)
   \<and> \<lparr>name = ''a.pdf'', displayName = ''a.pdf'', objectUrl = ''blob:a''\<rparr>
        \<notin> set (pdfLibrary (fst (handleMerge (\<lambda>s. s) ''1'' (MergeOk ''a.pdf'') (\<lambda>k. Status ''done'')
                  two_selected)))
   \<and> pdfLibrary (fst (handleMerge (\<lambda>s. s) ''1'' (MergeOk ''a.pdf'') (\<lambda>k. Status ''done'') two_selected))
       = [\<lparr>name = ''b.pdf'', displayName = ''b.pdf'', objectUrl = ''blob:b''\<rparr>,
          \<lparr>name = ''a.pdf'', displayName = ''a.pdf'',
           objectUrl = ''http://localhost:8000/pdf/download/a.pdf''\<rparr>]"
  by (simp add: handleMerge_library insert_entry_def two_selected_def two_pdfs_def initial_chat_def)

lemma poll_upload_settles:
  "uploadStatus (poll_upload u f c st) = Success \<or> uploadStatus (poll_upload u f c st) = Error"
proof (induction u f c st rule: poll_upload.induct)
  case (1 upstream serverFilename pollCount st)
  have fin: "uploadStatus (upload_finished serverFilename st) = Success"
    by (cases "pendingUploadRef st") (auto simp: upload_finished_def)
  show ?case
  proof (cases "MAX_POLLS \<le> pollCount + 1")
    case True
    then show ?thesis using fin by (subst (1 2) poll_upload.simps) simp
  next
    case False
    show ?thesis
    proof (cases "upstream (pollCount + 1)")
      case StatusThrows
      with False "1.IH"(1) show ?thesis by (subst (1 2) poll_upload.simps) simp
    next
      case StatusNotOk
      with False "1.IH"(2) show ?thesis by (subst (1 2) poll_upload.simps) simp
    next
      case (Status s)
      with False "1.IH"(3) fin show ?thesis by (subst (1 2) poll_upload.simps) auto
    qed
  qed
qed

lemma poll_upload_exhausted:
  "\<forall>k. pollCount < k \<and> k < MAX_POLLS \<longrightarrow> upstream k \<noteq> Status ''done'' \<and> upstream k \<noteq> Status ''error''
   \<Longrightarrow> poll_upload upstream f pollCount st = upload_finished f st"
proof (induction upstream f pollCount st rule: poll_upload.induct)
  case (1 upstream serverFilename pollCount st)
  show ?case
  proof (cases "MAX_POLLS \<le> pollCount + 1")
    case True
    then show ?thesis by (subst poll_upload.simps) simp
  next
    case False
    then have k: "upstream (pollCount + 1) \<noteq> Status ''done'' \<and> upstream (pollCount + 1) \<noteq> Status ''error''"
      using "1.prems" by simp
    have rest: "\<forall>k. pollCount + 1 < k \<and> k < MAX_POLLS \<longrightarrow>
        upstream k \<noteq> Status ''done'' \<and> upstream k \<noteq> Status ''error''"
      using "1.prems" by simp
    show ?thesis
    proof (cases "upstream (pollCount + 1)")
      case StatusThrows
      with False "1.IH"(1) rest show ?thesis by (subst poll_upload.simps) simp
    next
      case StatusNotOk
      with False "1.IH"(2) rest show ?thesis by (subst poll_upload.simps) simp
    next
      case (Status s)
      with False "1.IH"(3) rest k show ?thesis by (subst poll_upload.simps) simp
    qed
  qed
qed

lemma poll_merge_settles:
  "uploadStatus (poll_merge u c st) = Success \<or> uploadStatus (poll_merge u c st) = Error"
proof (induction u c st rule: poll_merge.induct)
  case (1 upstream count st)
  show ?case
  proof (cases "30 \<le> count + 1")
    case True
    then show ?thesis by (subst (1 2) poll_merge.simps) simp
  next
    case False
    show ?thesis
    proof (cases "upstream (count + 1)")
      case StatusThrows
      with False "1.IH"(1) show ?thesis by (subst (1 2) poll_merge.simps) simp
    next
      case StatusNotOk
      with False "1.IH"(2) show ?thesis by (subst (1 2) poll_merge.simps) simp
    next
      case (Status s)
      with False "1.IH"(3) show ?thesis by (subst (1 2) poll_merge.simps) auto
    qed
  qed
qed

lemma poll_merge_exhausted:
  "\<forall>k. count < k \<and> k < 30 \<longrightarrow> upstream k \<noteq> Status ''done'' \<and> upstream k \<noteq> Status ''error''
   \<Longrightarrow> poll_merge upstream count st = st\<lparr>uploadStatus := Success\<rparr>"
proof (induction upstream count st rule: poll_merge.induct)
  case (1 upstream count st)
  show ?case
  proof (cases "30 \<le> count + 1")
    case True
    then show ?thesis by (subst poll_merge.simps) simp
  next
    case False
    then have k: "upstream (count + 1) \<noteq> Status ''done'' \<and> upstream (count + 1) \<noteq> Status ''error''"
      using "1.prems" by simp
    have rest: "\<forall>k. count + 1 < k \<and> k < 30 \<longrightarrow>
        upstream k \<noteq> Status ''done'' \<and> upstream k \<noteq> Status ''error''"
      using "1.prems" by simp
    show ?thesis
    proof (cases "upstream (count + 1)")
      case StatusThrows
      with False "1.IH"(1) rest show ?thesis by (subst poll_merge.simps) simp
    next
      case StatusNotOk
      with False "1.IH"(2) rest show ?thesis by (subst poll_merge.simps) simp
    next
      case (Status s)
      with False "1.IH"(3) rest k show ?thesis by (subst poll_merge.simps) simp
    qed
  qed
qed

lemma never_settles_iff:
  "never_settles upstream =
     (\<forall>k. 0 < k \<and> k < 30 \<longrightarrow> upstream k \<noteq> Status ''done'' \<and> upstream k \<noteq> Status ''error'')"
  by (auto simp: never_settles_def list_all_iff)


lemma upload_finished_status: "uploadStatus (upload_finished f st) = Success"
  by (cases "pendingUploadRef st") (auto simp: upload_finished_def)

lemma handleFileChange_exhausted:
  assumes "never_settles upstream" and "endsWith fileName ''.pdf''"
  shows "handleFileChange (Some (fileName, objUrl)) (UploadOk filename) upstream st =
           upload_finished (case filename of Some f \<Rightarrow> f | None \<Rightarrow> fileName)
             (st\<lparr>uploadedFileName := Some fileName,
                 uploadStatus := Uploading,
                 pendingUploadRef := Some (fileName, objUrl),
                 uploadedFileServerName := Some (case filename of Some f \<Rightarrow> f | None \<Rightarrow> fileName),
                 uploadStatus := Embedding\<rparr>)"
proof -
  from assms(1) have "\<forall>k. 0 < k \<and> k < MAX_POLLS \<longrightarrow>
      upstream k \<noteq> Status ''done'' \<and> upstream k \<noteq> Status ''error''"
    by (simp add: never_settles_iff MAX_POLLS_def)
  from poll_upload_exhausted [OF this] assms(2) show ?thesis
    by (simp add: handleFileChange_def Let_def)
qed

lemma handleMerge_exhausted:
  assumes "never_settles upstream" and "2 \<le> length (mergeSelected st)" and "\<not> mergeLoading st"
  shows "uploadStatus (fst (handleMerge enc stamp (MergeOk serverName) upstream st)) = Success"
proof -
  from assms(1) have "\<forall>k. 0 < k \<and> k < 30 \<longrightarrow>
      upstream k \<noteq> Status ''done'' \<and> upstream k \<noteq> Status ''error''"
    by (simp add: never_settles_iff)
  from poll_merge_exhausted [OF this] assms(2,3) show ?thesis
    by (simp add: handleMerge_def Let_def)
qed

text \<open>
  C3, as the code has it. When the polling exhausts its budget (no status request before
  the thirtieth tick is answered \<open>done\<close> or \<open>error\<close>), the status of the job becomes
  \<open>success\<close>: the client assumes the embedding done, and an upload is moved to the
  library. The status is not left at \<open>embedding\<close>.
\<close>

theorem polling_timeout_assumes_done:
  assumes "never_settles upstream"
  shows "(endsWith fileName ''.pdf'' \<longrightarrow>
            uploadStatus (handleFileChange (Some (fileName, objUrl)) (UploadOk filename) upstream st) = Success
            \<and> (case filename of Some f \<Rightarrow> f | None \<Rightarrow> fileName)
                \<in> set (map name (pdfLibrary
                      (handleFileChange (Some (fileName, objUrl)) (UploadOk filename) upstream st))))
         \<and> (2 \<le> length (mergeSelected st) \<and> \<not> mergeLoading st \<longrightarrow>
              uploadStatus (fst (handleMerge enc stamp (MergeOk serverName) upstream st)) = Success)"
proof (intro conjI impI)
  assume pdf: "endsWith fileName ''.pdf''"
  show "uploadStatus (handleFileChange (Some (fileName, objUrl)) (UploadOk filename) upstream st) = Success"
    by (simp add: handleFileChange_exhausted [OF assms pdf] upload_finished_status)
  show "(case filename of Some f \<Rightarrow> f | None \<Rightarrow> fileName)
          \<in> set (map name (pdfLibrary
                (handleFileChange (Some (fileName, objUrl)) (UploadOk filename) upstream st)))"
    by (simp add: handleFileChange_exhausted [OF assms pdf] upload_finished_def insert_entry_def)
next
  assume "2 \<le> length (mergeSelected st) \<and> \<not> mergeLoading st"
  then show "uploadStatus (fst (handleMerge enc stamp (MergeOk serverName) upstream st)) = Success"
    using handleMerge_exhausted [OF assms] by simp
qed

lemma stuck_never_settles: "never_settles (\<lambda>k. Status ''embedding'')"
  by (simp add: never_settles_def list_all_iff)

text \<open>
  An upstream that answers \<open>embedding\<close> to every status request: the upload and the merge
  both end with the status \<open>success\<close>, not \<open>error\<close>.
\<close>

theorem polling_timeout_counterexample:
  "never_settles (\<lambda>k. Status ''embedding'')
   \<and> uploadStatus (handleFileChange (Some (''a.pdf'', ''blob:a'')) (UploadOk None)
        (\<lambda>k. Status ''embedding'') (initial_chat [])) = Success
   \<and> uploadStatus (handleFileChange (Some (''a.pdf'', ''blob:a'')) (UploadOk None)
        (\<lambda>k. Status ''embedding'') (initial_chat [])) \<noteq> Error
   \<and> uploadStatus (fst (handleMerge (\<lambda>s. s) ''1'' (MergeOk ''m.pdf'')
        (\<lambda>k. Status ''embedding'') two_selected)) \<noteq> Error"
proof -
  have pdf: "endsWith ''a.pdf'' ''.pdf''" by (simp add: endsWith_def)
  have h1: "2 \<le> length (mergeSelected two_selected)"
    by (simp add: two_selected_def two_pdfs_def initial_chat_def)
  have h2: "\<not> mergeLoading two_selected"
    by (simp add: two_selected_def two_pdfs_def initial_chat_def)
  show ?thesis
    using stuck_never_settles
    by (simp add: handleFileChange_exhausted [OF stuck_never_settles pdf] upload_finished_status
        handleMerge_exhausted [OF stuck_never_settles h1 h2])
qed

theorem polling_timeout_assumes_done_witness:
  "never_settles (\<lambda>k. StatusNotOk)
   \<and> endsWith ''a.pdf'' ''.pdf''
   \<and> uploadStatus (handleFileChange (Some (''a.pdf'', ''blob:a'')) (UploadOk (Some ''srv_a.pdf''))
        (\<lambda>k. StatusNotOk) (initial_chat [])) = Success
   \<and> ''srv_a.pdf'' \<in> set (map name (pdfLibrary (handleFileChange (Some (''a.pdf'', ''blob:a''))
        (UploadOk (Some ''srv_a.pdf'')) (\<lambda>k. StatusNotOk) (initial_chat []))))
   \<and> 2 \<le> length (mergeSelected two_selected) \<and> \<not> mergeLoading two_selected
   \<and> uploadStatus (fst (handleMerge (\<lambda>s. s) ''1'' (MergeOk ''m.pdf'') (\<lambda>k. StatusNotOk) two_selected)) = Success"
proof -
  have n: "never_settles (\<lambda>k. StatusNotOk)" by (simp add: never_settles_def list_all_iff)
  have pdf: "endsWith ''a.pdf'' ''.pdf''" by (simp add: endsWith_def)
  have h1: "2 \<le> length (mergeSelected two_selected)"
    by (simp add: two_selected_def two_pdfs_def initial_chat_def)
  have h2: "\<not> mergeLoading two_selected"
    by (simp add: two_selected_def two_pdfs_def initial_chat_def)
  from polling_timeout_assumes_done [OF n, of "''a.pdf''" "''blob:a''" "Some ''srv_a.pdf''" "initial_chat []"]
    polling_timeout_assumes_done [OF n, where st = two_selected and enc = "\<lambda>s. s" and stamp = "''1''"
      and serverName = "''m.pdf''"]
    n pdf h1 h2
  show ?thesis by simp
qed

section \<open>Properties of the stream consumer\<close>

lemma append_to_last_empty: "append_to_last [] ms = ms"
  by (simp add: append_to_last_def)

lemma append_to_last_twice:
  "append_to_last t2 (append_to_last t1 ms) = append_to_last (t1 @ t2) ms"
  by (cases "ms = []") (simp_all add: append_to_last_def)

lemma try_token_some:
  "token_text R data = Some tok \<Longrightarrow>
     try_token R data st = Inr (fst st @ tok, append_to_last tok (snd st))"
  by (auto simp: token_text_def try_token_def
      split: option.splits json.splits if_splits sum.splits)

lemma try_token_none:
  "token_text R data = None \<Longrightarrow> try_token R data st = Inr st \<or> (\<exists>e. try_token R data st = Inl e)"
  by (auto simp: token_text_def try_token_def
      split: option.splits json.splits if_splits sum.splits)


lemma handle_line_eq:
  "handle_line R line st =
     (if is_done line then Break st
      else Continue (fst st @ line_token R line, append_to_last (line_token R line) (snd st)))"
proof (cases "startsWith line ''data: ''")
  case False
  then show ?thesis
    by (simp add: handle_line_def is_done_def line_token_def append_to_last_empty)
next
  case True
  show ?thesis
  proof (cases "trim (drop 6 line) = ''[DONE]''")
    case d: True
    with True show ?thesis by (simp add: handle_line_def is_done_def)
  next
    case d: False
    show ?thesis
    proof (cases "token_text R (trim (drop 6 line))")
      case None
      from try_token_none [OF None, of st] True d None show ?thesis
        by (auto simp: handle_line_def is_done_def line_token_def append_to_last_empty Let_def)
    next
      case (Some tok)
      from try_token_some [OF Some, of st] True d Some show ?thesis
        by (simp add: handle_line_def is_done_def line_token_def Let_def)
    qed
  qed
qed

lemma for_lines_eq:
  "for_lines R lines (fa, ms) = (fa @ batch_text R lines, append_to_last (batch_text R lines) ms)"
proof (induction lines arbitrary: fa ms)
  case Nil
  then show ?case by (simp add: batch_text_def append_to_last_empty)
next
  case (Cons line lines)
  show ?case
  proof (cases "is_done line")
    case True
    then show ?thesis by (simp add: handle_line_eq batch_text_def append_to_last_empty)
  next
    case False
    have "batch_text R (line # lines) = line_token R line @ batch_text R lines"
      using False by (simp add: batch_text_def)
    with False Cons.IH show ?thesis
      by (simp add: handle_line_eq append_to_last_twice)
  qed
qed

lemma read_loop_eq:
  "read_loop R chunks buf (fa, ms) =
     (if ReadThrows \<in> set chunks then Some NetworkError else None,
      fa @ received_text R chunks buf,
      append_to_last (received_text R chunks buf) ms)"
proof (induction chunks arbitrary: buf fa ms)
  case Nil
  then show ?case by (simp add: append_to_last_empty)
next
  case (Cons c chunks)
  show ?case
  proof (cases c)
    case ReadThrows
    then show ?thesis by (simp add: append_to_last_empty)
  next
    case (Chunk v)
    with Cons.IH show ?thesis
      by (simp add: Let_def for_lines_eq append_to_last_twice)
  qed
qed


lemma split_newline_nonempty: "split_newline s \<noteq> []"
  by (induction s) (auto split: list.splits)

lemma split_newline_append:
  "split_newline (x @ newline # y) = split_newline x @ split_newline y"
proof (induction x)
  case Nil
  then show ?case by simp
next
  case (Cons c x)
  obtain l ls where "split_newline x = l # ls"
    using split_newline_nonempty [of x] by (cases "split_newline x") auto
  with Cons show ?case by simp
qed

lemma split_newline_line: "newline \<notin> set line \<Longrightarrow> split_newline line = [line]"
  by (induction line) auto

lemma batch_text_skip:
  assumes "\<not> is_done line" and "line_token R line = []"
  shows "batch_text R (xs @ line # ys) = batch_text R (xs @ ys)"
proof (cases "\<forall>l \<in> set xs. \<not> is_done l")
  case True
  with assms show ?thesis by (simp add: batch_text_def takeWhile_append2)
next
  case False
  then obtain l where "l \<in> set xs" and "\<not> \<not> is_done l" by blast
  then show ?thesis by (simp add: batch_text_def takeWhile_append1)
qed

lemma read_loop_prefix:
  assumes "\<And>buf st. read_loop R rest1 buf st = read_loop R rest2 buf st"
  shows "read_loop R (pre @ rest1) buf st = read_loop R (pre @ rest2) buf st"
proof (induction pre arbitrary: buf st)
  case Nil
  then show ?case by (simp add: assms)
next
  case (Cons c pre)
  then show ?case by (cases c) (simp_all add: Let_def)
qed

lemma malformed_not_done:
  assumes "startsWith line ''data: ''" and "trim (drop 6 line) \<noteq> ''[DONE]''"
    and "token_text R (trim (drop 6 line)) = None"
  shows "\<not> is_done line" and "line_token R line = []"
  using assms by (simp_all add: is_done_def line_token_def)

lemma read_loop_skip_chunk:
  assumes "\<not> is_done line" and "line_token R line = []" and "newline \<notin> set line"
  shows "read_loop R (Chunk (a @ [newline] @ line @ [newline] @ b) # post) buf st
       = read_loop R (Chunk (a @ [newline] @ b) # post) buf st"
proof -
  obtain fa ms where st: "st = (fa, ms)" by (cases st)
  have l1: "split_newline (buf @ a @ newline # line @ newline # b)
          = split_newline (buf @ a) @ line # split_newline b"
    using split_newline_append [of "buf @ a" "line @ newline # b"]
      split_newline_append [of line b] split_newline_line [OF assms(3)]
    by simp
  have l2: "split_newline (buf @ a @ newline # b) = split_newline (buf @ a) @ split_newline b"
    using split_newline_append [of "buf @ a" b] by simp
  have ne: "split_newline b \<noteq> []" by (rule split_newline_nonempty)
  have b1: "butlast (split_newline (buf @ a) @ line # split_newline b)
          = split_newline (buf @ a) @ line # butlast (split_newline b)"
    using ne by (simp add: butlast_append)
  have b2: "butlast (split_newline (buf @ a) @ split_newline b)
          = split_newline (buf @ a) @ butlast (split_newline b)"
    using ne by (simp add: butlast_append)
  show ?thesis
    unfolding st
    using ne by (simp add: Let_def l1 l2 b1 b2 for_lines_eq batch_text_skip [OF assms(1,2)])
qed


lemma for_lines_skip:
  assumes "\<not> is_done line" and "line_token R line = []"
  shows "for_lines R (before @ line # after) st = for_lines R (before @ after) st"
  by (cases st) (simp add: for_lines_eq batch_text_skip [OF assms])

lemma sendMessage_same_consume:
  assumes "\<And>st. consume R reply1 st = consume R reply2 st"
  shows "sendMessage R sid ov reply1 sug st = sendMessage R sid ov reply2 sug st"
  by (simp only: sendMessage_def assms)

lemma handleTranslate_same_consume:
  assumes "\<And>st. consume R reply1 st = consume R reply2 st"
  shows "handleTranslate R sid f l reply1 st = handleTranslate R sid f l reply2 st"
  by (simp only: handleTranslate_def assms)

lemma sample_lines:
  "startsWith (token_event ''Hello'') ''data: ''"
  "startsWith (token_event ''!'') ''data: ''"
  "startsWith truncated_event ''data: ''"
  "trim (drop 6 (token_event ''Hello'')) = drop 6 (token_event ''Hello'')"
  "trim (drop 6 (token_event ''!'')) = drop 6 (token_event ''!'')"
  "trim (drop 6 truncated_event) = drop 6 truncated_event"
  "trim (drop 6 ''data: [DONE]'') = ''[DONE]''"
  "startsWith ''data: [DONE]'' ''data: ''"
  by (simp_all add: startsWith_def token_event_def truncated_event_def trim_def is_space_def)

lemma sample_tokens:
  "token_text sample_runtime (drop 6 (token_event ''Hello'')) = Some ''Hello''"
  "token_text sample_runtime (drop 6 (token_event ''!'')) = Some ''!''"
  "token_text sample_runtime (drop 6 truncated_event) = None"
  by (simp_all add: token_text_def sample_runtime_def token_event_def truncated_event_def)

lemma sample_line_tokens:
  "line_token sample_runtime (token_event ''Hello'') = ''Hello''"
  "line_token sample_runtime (token_event ''!'') = ''!''"
  "\<not> is_done (token_event ''Hello'')"
  "\<not> is_done (token_event ''!'')"
  "is_done ''data: [DONE]''"
  by (simp_all add: line_token_def is_done_def sample_lines sample_tokens)
     (simp_all add: token_event_def trim_def is_space_def startsWith_def)

section \<open>Properties of an exchange\<close>

lemma append_to_last_slot:
  "append_to_last T (xs @ [u, \<lparr>role = Assistant, content = []\<rparr>])
     = xs @ [u, \<lparr>role = Assistant, content = T\<rparr>]"
  by (simp add: append_to_last_def nth_append list_update_append)

lemma replace_last_slot: "replace_last m (xs @ [u, a]) = xs @ [u, m]"
  by (simp add: replace_last_def list_update_append)

lemma consume_fails:
  assumes "stream_fails reply"
  shows "\<exists>e T. consume R reply (fa, ms) = (Some e, fa @ T, append_to_last T ms)"
proof (cases reply)
  case FetchRejects
  then have "consume R reply (fa, ms) = (Some NetworkError, fa @ [], append_to_last [] ms)"
    by (simp add: consume_def append_to_last_empty)
  then show ?thesis by blast
next
  case (Response ok body)
  show ?thesis
  proof (cases body)
    case None
    with Response have "consume R reply (fa, ms) = (Some StreamFailed, fa @ [], append_to_last [] ms)"
      by (simp add: consume_def append_to_last_empty)
    then show ?thesis by blast
  next
    case (Some chunks)
    show ?thesis
    proof (cases ok)
      case False
      with Response Some
      have "consume R reply (fa, ms) = (Some StreamFailed, fa @ [], append_to_last [] ms)"
        by (simp add: consume_def append_to_last_empty)
      then show ?thesis by blast
    next
      case True
      with Response Some assms have "ReadThrows \<in> set chunks" by simp
      with Response Some True
      have "consume R reply (fa, ms) =
              (Some NetworkError, fa @ received_text R chunks [],
               append_to_last (received_text R chunks []) ms)"
        by (simp add: consume_def read_loop_eq)
      then show ?thesis by blast
    qed
  qed
qed

lemma consume_ok:
  assumes "\<not> stream_fails reply"
  shows "consume R reply (fa, ms) =
           (None, fa @ answer_text R reply, append_to_last (answer_text R reply) ms)"
proof (cases reply)
  case FetchRejects
  with assms show ?thesis by simp
next
  case (Response ok body)
  with assms obtain chunks where "body = Some chunks" by (cases body) auto
  with Response assms show ?thesis by (simp add: consume_def read_loop_eq)
qed

lemma sendMessage_failed:
  assumes "stream_fails reply"
    and "trim (case ov of Some t \<Rightarrow> t | None \<Rightarrow> input st) \<noteq> []" and "\<not> loading st"
  shows "sendMessage R sid ov reply sug st =
           (st\<lparr>suggestions := [],
               messages := messages st @
                 [\<lparr>role = User, content = trim (case ov of Some t \<Rightarrow> t | None \<Rightarrow> input st)\<rparr>,
                  \<lparr>role = Assistant, content = ''Error: Could not reach the server.''\<rparr>],
               input := [],
               loading := False\<rparr>,
            [ChatStreamRequest (trim (case ov of Some t \<Rightarrow> t | None \<Rightarrow> input st)) (messages st)
               (map name (pdfLibrary st))])"
proof -
  let ?q = "trim (case ov of Some t \<Rightarrow> t | None \<Rightarrow> input st)"
  obtain e T where c: "consume R reply
      ([], messages st @ [\<lparr>role = User, content = ?q\<rparr>, \<lparr>role = Assistant, content = []\<rparr>])
      = (Some e, T,
         append_to_last T (messages st @ [\<lparr>role = User, content = ?q\<rparr>, \<lparr>role = Assistant, content = []\<rparr>]))"
    using consume_fails [OF assms(1), of R "[]"
        "messages st @ [\<lparr>role = User, content = ?q\<rparr>, \<lparr>role = Assistant, content = []\<rparr>]"]
    by auto
  have slot: "replace_last m
      (append_to_last T (messages st @ [\<lparr>role = User, content = ?q\<rparr>, \<lparr>role = Assistant, content = []\<rparr>]))
      = messages st @ [\<lparr>role = User, content = ?q\<rparr>, m]" for m
    by (simp only: append_to_last_slot replace_last_slot)
  show ?thesis
    using assms(2,3) by (simp add: sendMessage_def Let_def c slot)
qed


lemma handleTranslate_failed:
  assumes "stream_fails reply"
    and "\<not> (case translatingPdf st of None \<Rightarrow> False | Some f \<Rightarrow> f \<noteq> [])" and "\<not> loading st"
  shows "handleTranslate R sid filename lang reply st =
           (st\<lparr>showPdfLibrary := False,
               translatingPdf := None,
               messages := messages st @
                 [\<lparr>role = User,
                   content = ''Translate '' @ [CHR 0x22] @ filename @ [CHR 0x22] @ '' to '' @ lang\<rparr>,
                  \<lparr>role = Assistant, content = ''Error: Translation failed. Please try again.''\<rparr>],
               loading := False\<rparr>,
            [TranslateStreamRequest filename lang])"
proof -
  let ?u = "\<lparr>role = User,
             content = ''Translate '' @ [CHR 0x22] @ filename @ [CHR 0x22] @ '' to '' @ lang\<rparr>"
  obtain e T where c: "consume R reply
      ([], messages st @ [?u, \<lparr>role = Assistant, content = []\<rparr>])
      = (Some e, T, append_to_last T (messages st @ [?u, \<lparr>role = Assistant, content = []\<rparr>]))"
    using consume_fails [OF assms(1), of R "[]"
        "messages st @ [?u, \<lparr>role = Assistant, content = []\<rparr>]"]
    by auto
  have slot: "replace_last m
      (append_to_last T (messages st @ [?u, \<lparr>role = Assistant, content = []\<rparr>]))
      = messages st @ [?u, m]" for m
    by (simp only: append_to_last_slot replace_last_slot)
  show ?thesis
    using assms(2,3) c slot by (simp add: handleTranslate_def Let_def)
qed

lemma sendMessage_completed:
  assumes "\<not> stream_fails reply"
    and "trim (case ov of Some t \<Rightarrow> t | None \<Rightarrow> input st) \<noteq> []" and "\<not> loading st"
  shows "messages (fst (sendMessage R sid ov reply sug st)) =
           messages st @
             [\<lparr>role = User, content = trim (case ov of Some t \<Rightarrow> t | None \<Rightarrow> input st)\<rparr>,
              \<lparr>role = Assistant, content = answer_text R reply\<rparr>]"
    and "filter is_save (snd (sendMessage R sid ov reply sug st)) =
           (if trim (answer_text R reply) \<noteq> []
            then [SaveSession sid
                    (messages st @
                       [\<lparr>role = User, content = trim (case ov of Some t \<Rightarrow> t | None \<Rightarrow> input st)\<rparr>,
                        \<lparr>role = Assistant, content = answer_text R reply\<rparr>])]
            else [])"
proof -
  let ?q = "trim (case ov of Some t \<Rightarrow> t | None \<Rightarrow> input st)"
  have c: "consume R reply
      ([], messages st @ [\<lparr>role = User, content = ?q\<rparr>, \<lparr>role = Assistant, content = []\<rparr>])
      = (None, answer_text R reply,
         messages st @ [\<lparr>role = User, content = ?q\<rparr>, \<lparr>role = Assistant, content = answer_text R reply\<rparr>])"
    using consume_ok [OF assms(1), of R "[]"
        "messages st @ [\<lparr>role = User, content = ?q\<rparr>, \<lparr>role = Assistant, content = []\<rparr>]"]
    by (simp add: append_to_last_slot)
  show "messages (fst (sendMessage R sid ov reply sug st)) =
           messages st @ [\<lparr>role = User, content = ?q\<rparr>, \<lparr>role = Assistant, content = answer_text R reply\<rparr>]"
    using assms(2,3) c by (simp add: sendMessage_def Let_def)
  show "filter is_save (snd (sendMessage R sid ov reply sug st)) =
           (if trim (answer_text R reply) \<noteq> []
            then [SaveSession sid
                    (messages st @ [\<lparr>role = User, content = ?q\<rparr>,
                                    \<lparr>role = Assistant, content = answer_text R reply\<rparr>])]
            else [])"
    using assms(2,3) c by (simp add: sendMessage_def Let_def)
qed

lemma handleTranslate_completed:
  assumes "\<not> stream_fails reply"
    and "\<not> (case translatingPdf st of None \<Rightarrow> False | Some f \<Rightarrow> f \<noteq> [])" and "\<not> loading st"
  shows "messages (fst (handleTranslate R sid filename lang reply st)) =
           messages st @
             [\<lparr>role = User,
               content = ''Translate '' @ [CHR 0x22] @ filename @ [CHR 0x22] @ '' to '' @ lang\<rparr>,
              \<lparr>role = Assistant, content = answer_text R reply\<rparr>]"
    and "filter is_save (snd (handleTranslate R sid filename lang reply st)) =
           (if trim (answer_text R reply) \<noteq> []
            then [SaveSession sid
                    (messages st @
                       [\<lparr>role = User,
                         content = ''Translate '' @ [CHR 0x22] @ filename @ [CHR 0x22] @ '' to '' @ lang\<rparr>,
                        \<lparr>role = Assistant, content = answer_text R reply\<rparr>])]
            else [])"
proof -
  let ?u = "\<lparr>role = User,
             content = ''Translate '' @ [CHR 0x22] @ filename @ [CHR 0x22] @ '' to '' @ lang\<rparr>"
  have c: "consume R reply ([], messages st @ [?u, \<lparr>role = Assistant, content = []\<rparr>])
      = (None, answer_text R reply,
         messages st @ [?u, \<lparr>role = Assistant, content = answer_text R reply\<rparr>])"
    using consume_ok [OF assms(1), of R "[]" "messages st @ [?u, \<lparr>role = Assistant, content = []\<rparr>]"]
    by (simp add: append_to_last_slot)
  show "messages (fst (handleTranslate R sid filename lang reply st)) =
           messages st @ [?u, \<lparr>role = Assistant, content = answer_text R reply\<rparr>]"
    using assms(2,3) c by (simp add: handleTranslate_def Let_def)
  show "filter is_save (snd (handleTranslate R sid filename lang reply st)) =
           (if trim (answer_text R reply) \<noteq> []
            then [SaveSession sid (messages st @ [?u, \<lparr>role = Assistant, content = answer_text R reply\<rparr>])]
            else [])"
    using assms(2,3) c by (simp add: handleTranslate_def Let_def)
qed


text \<open>
  C5. When the generation stream of an exchange fails (the request is rejected, the
  response is not ok or has no body, or a read throws), the handler ends with the
  messages it started with, unchanged, followed by the user turn and an assistant
  message that holds the error text, whatever tokens had arrived; it is idle again, it
  has sent the request and nothing else, and the rest of the component is as before.
  This holds of \<open>sendMessage\<close> and of \<open>handleTranslate\<close>.
\<close>

theorem failed_stream_shows_error:
  assumes "stream_fails reply" and "\<not> loading st"
  shows "(trim (case ov of Some t \<Rightarrow> t | None \<Rightarrow> input st) \<noteq> [] \<longrightarrow>
            sendMessage R sid ov reply sug st =
              (st\<lparr>suggestions := [],
                  messages := messages st @
                    [\<lparr>role = User, content = trim (case ov of Some t \<Rightarrow> t | None \<Rightarrow> input st)\<rparr>,
                     \<lparr>role = Assistant, content = ''Error: Could not reach the server.''\<rparr>],
                  input := [],
                  loading := False\<rparr>,
               [ChatStreamRequest (trim (case ov of Some t \<Rightarrow> t | None \<Rightarrow> input st)) (messages st)
                  (map name (pdfLibrary st))]))
       \<and> (\<not> (case translatingPdf st of None \<Rightarrow> False | Some f \<Rightarrow> f \<noteq> []) \<longrightarrow>
            handleTranslate R sid filename lang reply st =
              (st\<lparr>showPdfLibrary := False,
                  translatingPdf := None,
                  messages := messages st @
                    [\<lparr>role = User,
                      content = ''Translate '' @ [CHR 0x22] @ filename @ [CHR 0x22] @ '' to '' @ lang\<rparr>,
                     \<lparr>role = Assistant, content = ''Error: Translation failed. Please try again.''\<rparr>],
                  loading := False\<rparr>,
               [TranslateStreamRequest filename lang]))"
  using sendMessage_failed [OF assms(1) _ assms(2)] handleTranslate_failed [OF assms(1) _ assms(2)]
  by blast

lemma sample_state_facts:
  "\<not> loading earlier_chat" "translatingPdf earlier_chat = None" "input earlier_chat = []"
  "messages earlier_chat = [\<lparr>role = User, content = ''Hi''\<rparr>, \<lparr>role = Assistant, content = ''Hello''\<rparr>]"
  "pdfLibrary earlier_chat = []"
  by (simp_all add: earlier_chat_def initial_chat_def)

lemma sample_responses:
  "stream_fails broken_response" "\<not> stream_fails complete_response"
  "answer_text sample_runtime complete_response = ''Hello!''"
  by (simp_all add: broken_response_def complete_response_def batch_text_def line_token_def
      is_done_def token_text_def sample_runtime_def token_event_def startsWith_def trim_def
      is_space_def newline_def)

theorem failed_stream_shows_error_witness:
  "stream_fails broken_response \<and> \<not> loading earlier_chat
   \<and> trim (case Some ''Why?'' of Some t \<Rightarrow> t | None \<Rightarrow> input earlier_chat) \<noteq> []
   \<and> messages (fst (sendMessage sample_runtime ''s1'' (Some ''Why?'') broken_response SuggestionsThrow
        earlier_chat))
       = [\<lparr>role = User, content = ''Hi''\<rparr>, \<lparr>role = Assistant, content = ''Hello''\<rparr>,
          \<lparr>role = User, content = ''Why?''\<rparr>,
          \<lparr>role = Assistant, content = ''Error: Could not reach the server.''\<rparr>]
   \<and> \<not> (case translatingPdf earlier_chat of None \<Rightarrow> False | Some f \<Rightarrow> f \<noteq> [])
   \<and> messages (fst (handleTranslate sample_runtime ''s1'' ''a.pdf'' ''French'' broken_response earlier_chat))
       = [\<lparr>role = User, content = ''Hi''\<rparr>, \<lparr>role = Assistant, content = ''Hello''\<rparr>,
          \<lparr>role = User, content = ''Translate \"a.pdf\" to French''\<rparr>,
          \<lparr>role = Assistant, content = ''Error: Translation failed. Please try again.''\<rparr>]"
proof -
  have q: "trim (case Some ''Why?'' of Some t \<Rightarrow> t | None \<Rightarrow> input earlier_chat) = ''Why?''"
    by (simp add: trim_def is_space_def)
  from failed_stream_shows_error [OF sample_responses(1) sample_state_facts(1),
      where ov = "Some ''Why?''" and R = sample_runtime and sid = "''s1''" and sug = SuggestionsThrow
        and filename = "''a.pdf''" and lang = "''French''"]
    q sample_responses(1) sample_state_facts
  show ?thesis by simp
qed


lemma sendMessage_saves:
  "filter is_save (snd (sendMessage R sid ov reply sug st)) =
     (if trim (case ov of Some t \<Rightarrow> t | None \<Rightarrow> input st) \<noteq> [] \<and> \<not> loading st
         \<and> \<not> stream_fails reply \<and> trim (answer_text R reply) \<noteq> []
      then [SaveSession sid
              (messages st @
                 [\<lparr>role = User, content = trim (case ov of Some t \<Rightarrow> t | None \<Rightarrow> input st)\<rparr>,
                  \<lparr>role = Assistant, content = answer_text R reply\<rparr>])]
      else [])"
proof (cases "trim (case ov of Some t \<Rightarrow> t | None \<Rightarrow> input st) \<noteq> [] \<and> \<not> loading st")
  case False
  then have "sendMessage R sid ov reply sug st = (st, [])"
    by (simp add: sendMessage_def Let_def)
  with False show ?thesis by auto
next
  case True
  show ?thesis
  proof (cases "stream_fails reply")
    case f: True
    with True show ?thesis by (simp add: sendMessage_failed)
  next
    case f: False
    with True show ?thesis by (simp add: sendMessage_completed(2))
  qed
qed

lemma handleTranslate_saves:
  "filter is_save (snd (handleTranslate R sid filename lang reply st)) =
     (if \<not> (case translatingPdf st of None \<Rightarrow> False | Some f \<Rightarrow> f \<noteq> []) \<and> \<not> loading st
         \<and> \<not> stream_fails reply \<and> trim (answer_text R reply) \<noteq> []
      then [SaveSession sid
              (messages st @
                 [\<lparr>role = User,
                   content = ''Translate '' @ [CHR 0x22] @ filename @ [CHR 0x22] @ '' to '' @ lang\<rparr>,
                  \<lparr>role = Assistant, content = answer_text R reply\<rparr>])]
      else [])"
proof (cases "\<not> (case translatingPdf st of None \<Rightarrow> False | Some f \<Rightarrow> f \<noteq> []) \<and> \<not> loading st")
  case False
  then have "handleTranslate R sid filename lang reply st = (st, [])"
    by (simp add: handleTranslate_def)
  with False show ?thesis by auto
next
  case True
  show ?thesis
  proof (cases "stream_fails reply")
    case f: True
    with True show ?thesis by (simp add: handleTranslate_failed)
  next
    case f: False
    with True show ?thesis by (simp add: handleTranslate_completed(2))
  qed
qed

lemma find_session:
  "find (\<lambda>s. session_id s = i) l = None \<longleftrightarrow> i \<notin> set (map session_id l)"
  "find (\<lambda>s. session_id s = i) l = Some x \<Longrightarrow> session_id x = i"
  by (induction l) (auto split: if_splits)

lemma handleSaveSession_posts:
  "map (\<lambda>(u, s, t, ms, c). (u, s, ms)) (snd (handleSaveSession userId i m app)) =
     (if userId \<noteq> [] \<and> i \<in> set (map session_id (sessions app)) then [(userId, i, m)] else [])"
proof (cases "find (\<lambda>s. session_id s = i) (sessions app)")
  case None
  then have "i \<notin> set (map session_id (sessions app))"
    using find_session(1) [of i "sessions app"] by simp
  with None show ?thesis
    by (simp add: handleSaveSession_def)
next
  case (Some x)
  then have x: "session_id x = i" by (rule find_session(2))
  from Some have "i \<in> set (map session_id (sessions app))"
    using find_session(1) [of i "sessions app"] by simp
  with Some x show ?thesis
    by (simp add: handleSaveSession_def saveSessionToBackend_def)
qed

text \<open>
  C6. The calls of \<open>onSaveSession\<close> by an exchange, chat or translation: there is one
  exactly when the exchange started, its stream did not fail and its answer is not
  blank, and it carries the messages before the exchange, the user turn and the
  complete answer, which are the messages the component then shows; otherwise there is
  none. \<open>handleSaveSession\<close> posts these messages for that session, when the user id
  is not empty and the session is listed.
\<close>

theorem session_saved_only_when_complete:
  "filter is_save (snd (sendMessage R sid ov reply sug st)) =
     (if trim (case ov of Some t \<Rightarrow> t | None \<Rightarrow> input st) \<noteq> [] \<and> \<not> loading st
         \<and> \<not> stream_fails reply \<and> trim (answer_text R reply) \<noteq> []
      then [SaveSession sid
              (messages st @
                 [\<lparr>role = User, content = trim (case ov of Some t \<Rightarrow> t | None \<Rightarrow> input st)\<rparr>,
                  \<lparr>role = Assistant, content = answer_text R reply\<rparr>])]
      else [])
   \<and> filter is_save (snd (handleTranslate R sid filename lang reply st)) =
     (if \<not> (case translatingPdf st of None \<Rightarrow> False | Some f \<Rightarrow> f \<noteq> []) \<and> \<not> loading st
         \<and> \<not> stream_fails reply \<and> trim (answer_text R reply) \<noteq> []
      then [SaveSession sid
              (messages st @
                 [\<lparr>role = User,
                   content = ''Translate '' @ [CHR 0x22] @ filename @ [CHR 0x22] @ '' to '' @ lang\<rparr>,
                  \<lparr>role = Assistant, content = answer_text R reply\<rparr>])]
      else [])
   \<and> (SaveSession sid' saved \<in> set (snd (sendMessage R sid ov reply sug st))
        \<longrightarrow> saved = messages (fst (sendMessage R sid ov reply sug st)))
   \<and> (SaveSession sid' saved \<in> set (snd (handleTranslate R sid filename lang reply st))
        \<longrightarrow> saved = messages (fst (handleTranslate R sid filename lang reply st)))
   \<and> map (\<lambda>(u, s, t, ms, c). (u, s, ms)) (snd (handleSaveSession userId sid saved app)) =
       (if userId \<noteq> [] \<and> sid \<in> set (map session_id (sessions app)) then [(userId, sid, saved)] else [])"
proof (intro conjI impI)
  show "filter is_save (snd (sendMessage R sid ov reply sug st)) =
     (if trim (case ov of Some t \<Rightarrow> t | None \<Rightarrow> input st) \<noteq> [] \<and> \<not> loading st
         \<and> \<not> stream_fails reply \<and> trim (answer_text R reply) \<noteq> []
      then [SaveSession sid
              (messages st @
                 [\<lparr>role = User, content = trim (case ov of Some t \<Rightarrow> t | None \<Rightarrow> input st)\<rparr>,
                  \<lparr>role = Assistant, content = answer_text R reply\<rparr>])]
      else [])"
    by (rule sendMessage_saves)
  show "filter is_save (snd (handleTranslate R sid filename lang reply st)) =
     (if \<not> (case translatingPdf st of None \<Rightarrow> False | Some f \<Rightarrow> f \<noteq> []) \<and> \<not> loading st
         \<and> \<not> stream_fails reply \<and> trim (answer_text R reply) \<noteq> []
      then [SaveSession sid
              (messages st @
                 [\<lparr>role = User,
                   content = ''Translate '' @ [CHR 0x22] @ filename @ [CHR 0x22] @ '' to '' @ lang\<rparr>,
                  \<lparr>role = Assistant, content = answer_text R reply\<rparr>])]
      else [])"
    by (rule handleTranslate_saves)
  show "map (\<lambda>(u, s, t, ms, c). (u, s, ms)) (snd (handleSaveSession userId sid saved app)) =
       (if userId \<noteq> [] \<and> sid \<in> set (map session_id (sessions app)) then [(userId, sid, saved)] else [])"
    by (rule handleSaveSession_posts)
next
  assume "SaveSession sid' saved \<in> set (snd (sendMessage R sid ov reply sug st))"
  then have mem: "SaveSession sid' saved \<in> set (filter is_save (snd (sendMessage R sid ov reply sug st)))"
    by simp
  show "saved = messages (fst (sendMessage R sid ov reply sug st))"
  proof (cases "trim (case ov of Some t \<Rightarrow> t | None \<Rightarrow> input st) \<noteq> [] \<and> \<not> loading st
         \<and> \<not> stream_fails reply \<and> trim (answer_text R reply) \<noteq> []")
    case True
    with mem show ?thesis
      by (simp add: sendMessage_saves sendMessage_completed(1))
  next
    case False
    with mem show ?thesis unfolding sendMessage_saves by (simp only: if_False list.set empty_iff)
  qed
next
  assume "SaveSession sid' saved \<in> set (snd (handleTranslate R sid filename lang reply st))"
  then have mem: "SaveSession sid' saved
      \<in> set (filter is_save (snd (handleTranslate R sid filename lang reply st)))"
    by simp
  show "saved = messages (fst (handleTranslate R sid filename lang reply st))"
  proof (cases "\<not> (case translatingPdf st of None \<Rightarrow> False | Some f \<Rightarrow> f \<noteq> []) \<and> \<not> loading st
         \<and> \<not> stream_fails reply \<and> trim (answer_text R reply) \<noteq> []")
    case True
    with mem show ?thesis
      by (simp add: handleTranslate_saves handleTranslate_completed(1))
  next
    case False
    with mem show ?thesis unfolding handleTranslate_saves by (simp only: if_False list.set empty_iff)
  qed
qed


lemma filter_singleton_member:
  assumes "filter P xs = [x]"
  shows "x \<in> set xs"
proof -
  have "x \<in> set (filter P xs)" by (simp add: assms)
  then show ?thesis by simp
qed

theorem session_saved_only_when_complete_witness:
  "SaveSession ''s1''
     [\<lparr>role = User, content = ''Hi''\<rparr>, \<lparr>role = Assistant, content = ''Hello''\<rparr>,
      \<lparr>role = User, content = ''Why?''\<rparr>, \<lparr>role = Assistant, content = ''Hello!''\<rparr>]
     \<in> set (snd (sendMessage sample_runtime ''s1'' (Some ''Why?'') complete_response SuggestionsThrow
                earlier_chat))
   \<and> messages (fst (sendMessage sample_runtime ''s1'' (Some ''Why?'') complete_response SuggestionsThrow
         earlier_chat))
       = [\<lparr>role = User, content = ''Hi''\<rparr>, \<lparr>role = Assistant, content = ''Hello''\<rparr>,
          \<lparr>role = User, content = ''Why?''\<rparr>, \<lparr>role = Assistant, content = ''Hello!''\<rparr>]
   \<and> SaveSession ''s1''
     [\<lparr>role = User, content = ''Hi''\<rparr>, \<lparr>role = Assistant, content = ''Hello''\<rparr>,
      \<lparr>role = User, content = ''Translate \"a.pdf\" to French''\<rparr>,
      \<lparr>role = Assistant, content = ''Hello!''\<rparr>]
     \<in> set (snd (handleTranslate sample_runtime ''s1'' ''a.pdf'' ''French'' complete_response earlier_chat))
   \<and> messages (fst (handleTranslate sample_runtime ''s1'' ''a.pdf'' ''French'' complete_response
         earlier_chat))
       = [\<lparr>role = User, content = ''Hi''\<rparr>, \<lparr>role = Assistant, content = ''Hello''\<rparr>,
          \<lparr>role = User, content = ''Translate \"a.pdf\" to French''\<rparr>,
          \<lparr>role = Assistant, content = ''Hello!''\<rparr>]"
proof -
  let ?chat = "[\<lparr>role = User, content = ''Hi''\<rparr>, \<lparr>role = Assistant, content = ''Hello''\<rparr>,
      \<lparr>role = User, content = ''Why?''\<rparr>, \<lparr>role = Assistant, content = ''Hello!''\<rparr>]"
  let ?tr = "[\<lparr>role = User, content = ''Hi''\<rparr>, \<lparr>role = Assistant, content = ''Hello''\<rparr>,
      \<lparr>role = User, content = ''Translate \"a.pdf\" to French''\<rparr>,
      \<lparr>role = Assistant, content = ''Hello!''\<rparr>]"
  have q: "trim ''Why?'' = ''Why?''" "trim ''Hello!'' = ''Hello!''"
    by (simp_all add: trim_def is_space_def)
  note t1 = session_saved_only_when_complete [where R = sample_runtime and sid = "''s1''"
      and ov = "Some ''Why?''" and reply = complete_response and sug = SuggestionsThrow
      and st = earlier_chat and filename = "''a.pdf''" and lang = "''French''"
      and sid' = "''s1''" and saved = ?chat]
  note t2 = session_saved_only_when_complete [where R = sample_runtime and sid = "''s1''"
      and ov = "Some ''Why?''" and reply = complete_response and sug = SuggestionsThrow
      and st = earlier_chat and filename = "''a.pdf''" and lang = "''French''"
      and sid' = "''s1''" and saved = ?tr]
  from t1 have f1: "filter is_save (snd (sendMessage sample_runtime ''s1'' (Some ''Why?'') complete_response
        SuggestionsThrow earlier_chat)) = [SaveSession ''s1'' ?chat]"
    by (simp add: sample_responses sample_state_facts q)
  from t2 have f2: "filter is_save (snd (handleTranslate sample_runtime ''s1'' ''a.pdf'' ''French''
        complete_response earlier_chat)) = [SaveSession ''s1'' ?tr]"
    by (simp add: sample_responses sample_state_facts q)
  have m1: "SaveSession ''s1'' ?chat \<in> set (snd (sendMessage sample_runtime ''s1'' (Some ''Why?'')
        complete_response SuggestionsThrow earlier_chat))"
    using f1 by (rule filter_singleton_member)
  have m2: "SaveSession ''s1'' ?tr \<in> set (snd (handleTranslate sample_runtime ''s1'' ''a.pdf'' ''French''
        complete_response earlier_chat))"
    using f2 by (rule filter_singleton_member)
  from t1 m1 have e1: "?chat = messages (fst (sendMessage sample_runtime ''s1'' (Some ''Why?'')
        complete_response SuggestionsThrow earlier_chat))"
    by blast
  from t2 m2 have e2: "?tr = messages (fst (handleTranslate sample_runtime ''s1'' ''a.pdf'' ''French''
        complete_response earlier_chat))"
    by blast
  from m1 m2 e1 e2 show ?thesis by simp
qed

text \<open>
  C1, at a response whose terminating line is followed by a token event. When the event
  comes in a later read than \<open>[DONE]\<close>, its token is appended to the answer; when the
  same text comes in one read, the answer stops at \<open>[DONE]\<close>: the \<open>break\<close> leaves the
  loop over the lines of one read, not the loop over the reads. \<open>sendMessage\<close> then
  shows the answer with the later token.
\<close>

theorem done_does_not_end_the_stream:
  "read_loop sample_runtime
     [Chunk (token_event ''Hello'' @ [newline] @ ''data: [DONE]'' @ [newline]),
      Chunk (token_event ''!'' @ [newline])]
     [] ([], [\<lparr>role = Assistant, content = []\<rparr>])
     = (None, ''Hello!'', [\<lparr>role = Assistant, content = ''Hello!''\<rparr>])
   \<and> read_loop sample_runtime
     [Chunk (token_event ''Hello'' @ [newline] @ ''data: [DONE]'' @ [newline] @ token_event ''!'' @ [newline])]
     [] ([], [\<lparr>role = Assistant, content = []\<rparr>])
     = (None, ''Hello'', [\<lparr>role = Assistant, content = ''Hello''\<rparr>])
   \<and> messages (fst (sendMessage sample_runtime ''s1'' (Some ''Why?'') late_token_response
        SuggestionsThrow earlier_chat))
     = [\<lparr>role = User, content = ''Hi''\<rparr>, \<lparr>role = Assistant, content = ''Hello''\<rparr>,
        \<lparr>role = User, content = ''Why?''\<rparr>, \<lparr>role = Assistant, content = ''Hello!''\<rparr>]"
proof -
  have loops: "read_loop sample_runtime
     [Chunk (token_event ''Hello'' @ [newline] @ ''data: [DONE]'' @ [newline]),
      Chunk (token_event ''!'' @ [newline])]
     [] ([], [\<lparr>role = Assistant, content = []\<rparr>])
     = (None, ''Hello!'', [\<lparr>role = Assistant, content = ''Hello!''\<rparr>])
   \<and> read_loop sample_runtime
     [Chunk (token_event ''Hello'' @ [newline] @ ''data: [DONE]'' @ [newline] @ token_event ''!'' @ [newline])]
     [] ([], [\<lparr>role = Assistant, content = []\<rparr>])
     = (None, ''Hello'', [\<lparr>role = Assistant, content = ''Hello''\<rparr>])"
    by (simp add: sample_runtime_def token_event_def handle_line_def startsWith_def trim_def
        is_space_def newline_def try_token_def append_to_last_def)
  have ok: "\<not> stream_fails late_token_response"
    and ans: "answer_text sample_runtime late_token_response = ''Hello!''"
    by (simp_all add: late_token_response_def batch_text_def line_token_def
        is_done_def token_text_def sample_runtime_def token_event_def startsWith_def trim_def
        is_space_def newline_def)
  have q: "trim ''Why?'' = ''Why?''" by (simp add: trim_def is_space_def)
  have shown: "messages (fst (sendMessage sample_runtime ''s1'' (Some ''Why?'') late_token_response
        SuggestionsThrow earlier_chat))
     = [\<lparr>role = User, content = ''Hi''\<rparr>, \<lparr>role = Assistant, content = ''Hello''\<rparr>,
        \<lparr>role = User, content = ''Why?''\<rparr>, \<lparr>role = Assistant, content = ''Hello!''\<rparr>]"
    using sendMessage_completed(1) [OF ok, where ov = "Some ''Why?''" and st = earlier_chat
        and R = sample_runtime and sid = "''s1''" and sug = SuggestionsThrow]
    by (simp add: q ans sample_state_facts)
  from loops shown show ?thesis by blast
qed

section \<open>A line that is no token event\<close>

lemma batch_text_no_done:
  "list_all (\<lambda>l. \<not> is_done l) lines \<Longrightarrow> batch_text R lines = concat (map (line_token R) lines)"
  by (induction lines) (simp_all add: batch_text_def)

lemma received_text_skip:
  assumes "\<not> is_done line" and "line_token R line = []" and "newline \<notin> set line"
  shows "received_text R (pre @ Chunk (a @ [newline] @ line @ [newline] @ b) # post) buf
       = received_text R (pre @ Chunk (a @ [newline] @ b) # post) buf"
proof -
  have "read_loop R (pre @ Chunk (a @ [newline] @ line @ [newline] @ b) # post) buf ([], [])
      = read_loop R (pre @ Chunk (a @ [newline] @ b) # post) buf ([], [])"
    by (rule read_loop_prefix) (rule read_loop_skip_chunk [OF assms])
  then show ?thesis by (simp only: read_loop_eq append_Nil prod.inject)
qed

text \<open>
  C2, as the code has it. A \<open>data:\<close> line whose payload is neither \<open>[DONE]\<close> nor a token
  event by the code's test (it parses to an object whose \<open>type\<close> is \<open>token\<close> and whose
  \<open>data\<close> is truthy and converts to a string) is skipped and nothing else. The turn of
  the loop for it continues with the state unchanged. The lines of a read give, with it,
  the text of the lines before and after it, appended to the answer and to the last
  message: every token of these lines when none of them is the terminating line. A body
  with the line in one of its chunks leaves the read loop with the text of the body
  without it, and \<open>sendMessage\<close> and \<open>handleTranslate\<close>, when no read throws, end with
  the messages before the exchange, the user turn and an assistant message that holds
  that text.
\<close>

theorem malformed_line_skipped:
  assumes "startsWith line ''data: ''"
    and "trim (drop 6 line) \<noteq> ''[DONE]''"
    and "token_text R (trim (drop 6 line)) = None"
  shows "handle_line R line st = Continue st
       \<and> for_lines R (before @ line # after) st = for_lines R (before @ after) st
       \<and> for_lines R (before @ line # after) (fa, ms)
           = (fa @ batch_text R (before @ after), append_to_last (batch_text R (before @ after)) ms)
       \<and> (list_all (\<lambda>l. \<not> is_done l) (before @ after) \<longrightarrow>
            for_lines R (before @ line # after) (fa, ms)
              = (fa @ concat (map (line_token R) before) @ concat (map (line_token R) after),
                 append_to_last (concat (map (line_token R) before) @ concat (map (line_token R) after)) ms))
       \<and> (newline \<notin> set line \<longrightarrow>
            read_loop R (pre @ Chunk (a @ [newline] @ line @ [newline] @ b) # post) buf st
              = read_loop R (pre @ Chunk (a @ [newline] @ b) # post) buf st
            \<and> read_loop R (pre @ Chunk (a @ [newline] @ line @ [newline] @ b) # post) buf (fa, ms)
              = (if ReadThrows \<in> set pre \<or> ReadThrows \<in> set post then Some NetworkError else None,
                 fa @ received_text R (pre @ Chunk (a @ [newline] @ b) # post) buf,
                 append_to_last (received_text R (pre @ Chunk (a @ [newline] @ b) # post) buf) ms)
            \<and> sendMessage R sid ov
                (Response ok (Some (pre @ Chunk (a @ [newline] @ line @ [newline] @ b) # post))) sug cst
              = sendMessage R sid ov (Response ok (Some (pre @ Chunk (a @ [newline] @ b) # post))) sug cst
            \<and> handleTranslate R sid filename lang
                (Response ok (Some (pre @ Chunk (a @ [newline] @ line @ [newline] @ b) # post))) cst
              = handleTranslate R sid filename lang
                  (Response ok (Some (pre @ Chunk (a @ [newline] @ b) # post))) cst
            \<and> (ReadThrows \<notin> set pre \<and> ReadThrows \<notin> set post \<and> \<not> loading cst \<longrightarrow>
                 (trim (case ov of Some t \<Rightarrow> t | None \<Rightarrow> input cst) \<noteq> [] \<longrightarrow>
                    messages (fst (sendMessage R sid ov
                      (Response True (Some (pre @ Chunk (a @ [newline] @ line @ [newline] @ b) # post)))
                      sug cst))
                    = messages cst @
                        [\<lparr>role = User, content = trim (case ov of Some t \<Rightarrow> t | None \<Rightarrow> input cst)\<rparr>,
                         \<lparr>role = Assistant,
                          content = received_text R (pre @ Chunk (a @ [newline] @ b) # post) []\<rparr>])
                 \<and> (\<not> (case translatingPdf cst of None \<Rightarrow> False | Some f \<Rightarrow> f \<noteq> []) \<longrightarrow>
                    messages (fst (handleTranslate R sid filename lang
                      (Response True (Some (pre @ Chunk (a @ [newline] @ line @ [newline] @ b) # post)))
                      cst))
                    = messages cst @
                        [\<lparr>role = User,
                          content = ''Translate '' @ [CHR 0x22] @ filename @ [CHR 0x22] @ '' to '' @ lang\<rparr>,
                         \<lparr>role = Assistant,
                          content = received_text R (pre @ Chunk (a @ [newline] @ b) # post) []\<rparr>])))"
proof -
  note nd = malformed_not_done [OF assms]
  let ?with = "pre @ Chunk (a @ [newline] @ line @ [newline] @ b) # post"
  let ?without = "pre @ Chunk (a @ [newline] @ b) # post"
  have one: "handle_line R line st = Continue st"
    using nd by (simp add: handle_line_eq append_to_last_empty)
  have loop: "for_lines R (before @ line # after) st = for_lines R (before @ after) st"
    by (rule for_lines_skip [OF nd])
  have kept: "for_lines R (before @ line # after) (fa, ms)
           = (fa @ batch_text R (before @ after), append_to_last (batch_text R (before @ after)) ms)"
    using for_lines_skip [OF nd, of before after "(fa, ms)"] by (simp add: for_lines_eq)
  have kept_all: "for_lines R (before @ line # after) (fa, ms)
              = (fa @ concat (map (line_token R) before) @ concat (map (line_token R) after),
                 append_to_last (concat (map (line_token R) before) @ concat (map (line_token R) after)) ms)"
    if "list_all (\<lambda>l. \<not> is_done l) (before @ after)"
    using batch_text_no_done [OF that, of R] by (simp add: kept)
  have stream: "read_loop R ?with buf' st' = read_loop R ?without buf' st'"
    if "newline \<notin> set line" for buf' st'
    by (rule read_loop_prefix) (rule read_loop_skip_chunk [OF nd that])
  have exact: "read_loop R ?with buf (fa, ms)
              = (if ReadThrows \<in> set pre \<or> ReadThrows \<in> set post then Some NetworkError else None,
                 fa @ received_text R ?without buf,
                 append_to_last (received_text R ?without buf) ms)"
    if "newline \<notin> set line"
    using received_text_skip [OF nd that, of pre a b post buf] by (simp add: read_loop_eq)
  have cons: "consume R (Response ok' (Some ?with)) st' = consume R (Response ok' (Some ?without)) st'"
    if "newline \<notin> set line" for st' ok'
    by (simp only: consume_def stream_reply.case option.case stream [OF that])
  have chat: "messages (fst (sendMessage R sid ov (Response True (Some ?with)) sug cst))
                = messages cst @
                    [\<lparr>role = User, content = trim (case ov of Some t \<Rightarrow> t | None \<Rightarrow> input cst)\<rparr>,
                     \<lparr>role = Assistant, content = received_text R ?without []\<rparr>]"
    if "newline \<notin> set line" and "ReadThrows \<notin> set pre" and "ReadThrows \<notin> set post"
      and "\<not> loading cst" and "trim (case ov of Some t \<Rightarrow> t | None \<Rightarrow> input cst) \<noteq> []"
  proof -
    have nf: "\<not> stream_fails (Response True (Some ?without))" using that(2,3) by simp
    show ?thesis
      using sendMessage_completed(1) [OF nf that(5,4), of R sid sug]
        sendMessage_same_consume [OF cons [OF that(1), where ok' = True],
          where sid = sid and ov = ov and sug = sug and st = cst]
      by simp
  qed
  have tr: "messages (fst (handleTranslate R sid filename lang (Response True (Some ?with)) cst))
                = messages cst @
                    [\<lparr>role = User,
                      content = ''Translate '' @ [CHR 0x22] @ filename @ [CHR 0x22] @ '' to '' @ lang\<rparr>,
                     \<lparr>role = Assistant, content = received_text R ?without []\<rparr>]"
    if "newline \<notin> set line" and "ReadThrows \<notin> set pre" and "ReadThrows \<notin> set post"
      and "\<not> loading cst" and "\<not> (case translatingPdf cst of None \<Rightarrow> False | Some f \<Rightarrow> f \<noteq> [])"
  proof -
    have nf: "\<not> stream_fails (Response True (Some ?without))" using that(2,3) by simp
    show ?thesis
      using handleTranslate_completed(1) [OF nf that(5,4), of R sid filename lang]
        handleTranslate_same_consume [OF cons [OF that(1), where ok' = True],
          where sid = sid and f = filename and l = lang and st = cst]
      by simp
  qed
  show ?thesis
    using one loop kept kept_all stream exact
      sendMessage_same_consume [OF cons] handleTranslate_same_consume [OF cons] chat tr
    by blast
qed


theorem malformed_line_skipped_witness:
  "startsWith truncated_event ''data: ''
   \<and> trim (drop 6 truncated_event) \<noteq> ''[DONE]''
   \<and> token_text sample_runtime (trim (drop 6 truncated_event)) = None
   \<and> newline \<notin> set truncated_event
   \<and> handle_line sample_runtime truncated_event (''Hello'', [\<lparr>role = Assistant, content = ''Hello''\<rparr>])
       = Continue (''Hello'', [\<lparr>role = Assistant, content = ''Hello''\<rparr>])
   \<and> for_lines sample_runtime [token_event ''Hello'', truncated_event, token_event ''!'']
         ([], [\<lparr>role = Assistant, content = []\<rparr>])
       = (''Hello!'', [\<lparr>role = Assistant, content = ''Hello!''\<rparr>])
   \<and> read_loop sample_runtime
         [Chunk (token_event ''Hello'' @ [newline] @ truncated_event @ [newline] @
                 token_event ''!'' @ [newline] @ ''data: [DONE]'' @ [newline])]
         [] ([], [\<lparr>role = Assistant, content = []\<rparr>])
       = (None, ''Hello!'', [\<lparr>role = Assistant, content = ''Hello!''\<rparr>])
   \<and> messages (fst (sendMessage sample_runtime ''s1'' (Some ''Why?'') noisy_response SuggestionsThrow
         earlier_chat))
       = [\<lparr>role = User, content = ''Hi''\<rparr>, \<lparr>role = Assistant, content = ''Hello''\<rparr>,
          \<lparr>role = User, content = ''Why?''\<rparr>, \<lparr>role = Assistant, content = ''Hello!''\<rparr>]
   \<and> messages (fst (handleTranslate sample_runtime ''s1'' ''a.pdf'' ''French'' noisy_response earlier_chat))
       = [\<lparr>role = User, content = ''Hi''\<rparr>, \<lparr>role = Assistant, content = ''Hello''\<rparr>,
          \<lparr>role = User, content = ''Translate \"a.pdf\" to French''\<rparr>,
          \<lparr>role = Assistant, content = ''Hello!''\<rparr>]"
proof -
  have h1: "startsWith truncated_event ''data: ''" by (rule sample_lines)
  have h2: "trim (drop 6 truncated_event) \<noteq> ''[DONE]''"
    by (simp add: sample_lines) (simp add: truncated_event_def)
  have h3: "token_text sample_runtime (trim (drop 6 truncated_event)) = None"
    by (simp add: sample_lines sample_tokens)
  have nl: "newline \<notin> set truncated_event"
    by (simp add: truncated_event_def newline_def)
  have q: "trim ''Why?'' = ''Why?''" by (simp add: trim_def is_space_def)
  have clean: "received_text sample_runtime
      [Chunk (token_event ''Hello'' @ [newline] @ token_event ''!'' @ [newline] @ ''data: [DONE]'' @ [newline])] []
      = ''Hello!''"
    by (simp add: batch_text_def line_token_def is_done_def token_text_def sample_runtime_def
        token_event_def startsWith_def trim_def is_space_def newline_def)
  have toks: "batch_text sample_runtime [token_event ''Hello'', token_event ''!''] = ''Hello!''"
    by (simp add: batch_text_def sample_line_tokens)
  note t = malformed_line_skipped [OF h1 h2 h3,
      where before = "[token_event ''Hello'']" and after = "[token_event ''!'']"
        and fa = "[]" and ms = "[\<lparr>role = Assistant, content = []\<rparr>]"
        and st = "(''Hello'', [\<lparr>role = Assistant, content = ''Hello''\<rparr>])"
        and pre = "[]" and a = "token_event ''Hello''"
        and b = "token_event ''!'' @ [newline] @ ''data: [DONE]'' @ [newline]"
        and post = "[]" and buf = "[]" and sid = "''s1''" and ov = "Some ''Why?''"
        and sug = SuggestionsThrow and cst = earlier_chat and filename = "''a.pdf''"
        and lang = "''French''" and ok = True]
  from t have one: "handle_line sample_runtime truncated_event
        (''Hello'', [\<lparr>role = Assistant, content = ''Hello''\<rparr>])
       = Continue (''Hello'', [\<lparr>role = Assistant, content = ''Hello''\<rparr>])"
    by blast
  from t have "for_lines sample_runtime ([token_event ''Hello''] @ truncated_event # [token_event ''!''])
         ([], [\<lparr>role = Assistant, content = []\<rparr>])
       = ([] @ batch_text sample_runtime ([token_event ''Hello''] @ [token_event ''!'']),
          append_to_last (batch_text sample_runtime ([token_event ''Hello''] @ [token_event ''!'']))
            [\<lparr>role = Assistant, content = []\<rparr>])"
    by blast
  then have lines: "for_lines sample_runtime [token_event ''Hello'', truncated_event, token_event ''!'']
         ([], [\<lparr>role = Assistant, content = []\<rparr>])
       = (''Hello!'', [\<lparr>role = Assistant, content = ''Hello!''\<rparr>])"
    by (simp add: toks append_to_last_def)
  from t nl have "read_loop sample_runtime
         ([] @ Chunk (token_event ''Hello'' @ [newline] @ truncated_event @ [newline] @
                 token_event ''!'' @ [newline] @ ''data: [DONE]'' @ [newline]) # [])
         [] ([], [\<lparr>role = Assistant, content = []\<rparr>])
       = (if ReadThrows \<in> set [] \<or> ReadThrows \<in> set [] then Some NetworkError else None,
          [] @ received_text sample_runtime
            ([] @ Chunk (token_event ''Hello'' @ [newline] @ token_event ''!'' @ [newline] @
                 ''data: [DONE]'' @ [newline]) # []) [],
          append_to_last (received_text sample_runtime
            ([] @ Chunk (token_event ''Hello'' @ [newline] @ token_event ''!'' @ [newline] @
                 ''data: [DONE]'' @ [newline]) # []) [])
            [\<lparr>role = Assistant, content = []\<rparr>])"
    by blast
  then have reads: "read_loop sample_runtime
         [Chunk (token_event ''Hello'' @ [newline] @ truncated_event @ [newline] @
                 token_event ''!'' @ [newline] @ ''data: [DONE]'' @ [newline])]
         [] ([], [\<lparr>role = Assistant, content = []\<rparr>])
       = (None, ''Hello!'', [\<lparr>role = Assistant, content = ''Hello!''\<rparr>])"
    using clean by (simp add: append_to_last_def)
  have guards: "ReadThrows \<notin> set [] \<and> ReadThrows \<notin> set [] \<and> \<not> loading earlier_chat"
    "trim (case Some ''Why?'' of Some t \<Rightarrow> t | None \<Rightarrow> input earlier_chat) \<noteq> []"
    "\<not> (case translatingPdf earlier_chat of None \<Rightarrow> False | Some f \<Rightarrow> f \<noteq> [])"
    by (simp_all add: sample_state_facts q)
  from t nl guards have chat: "messages (fst (sendMessage sample_runtime ''s1'' (Some ''Why?'')
        (Response True (Some ([] @ Chunk (token_event ''Hello'' @ [newline] @ truncated_event @ [newline] @
                 token_event ''!'' @ [newline] @ ''data: [DONE]'' @ [newline]) # [])))
        SuggestionsThrow earlier_chat))
      = messages earlier_chat @
          [\<lparr>role = User, content = trim (case Some ''Why?'' of Some t \<Rightarrow> t | None \<Rightarrow> input earlier_chat)\<rparr>,
           \<lparr>role = Assistant, content = received_text sample_runtime
              ([] @ Chunk (token_event ''Hello'' @ [newline] @ token_event ''!'' @ [newline] @
                 ''data: [DONE]'' @ [newline]) # []) []\<rparr>]"
    by blast
  from t nl guards have tr: "messages (fst (handleTranslate sample_runtime ''s1'' ''a.pdf'' ''French''
        (Response True (Some ([] @ Chunk (token_event ''Hello'' @ [newline] @ truncated_event @ [newline] @
                 token_event ''!'' @ [newline] @ ''data: [DONE]'' @ [newline]) # [])))
        earlier_chat))
      = messages earlier_chat @
          [\<lparr>role = User,
            content = ''Translate '' @ [CHR 0x22] @ ''a.pdf'' @ [CHR 0x22] @ '' to '' @ ''French''\<rparr>,
           \<lparr>role = Assistant, content = received_text sample_runtime
              ([] @ Chunk (token_event ''Hello'' @ [newline] @ token_event ''!'' @ [newline] @
                 ''data: [DONE]'' @ [newline]) # []) []\<rparr>]"
    by blast
  from chat have chat': "messages (fst (sendMessage sample_runtime ''s1'' (Some ''Why?'') noisy_response
        SuggestionsThrow earlier_chat))
       = [\<lparr>role = User, content = ''Hi''\<rparr>, \<lparr>role = Assistant, content = ''Hello''\<rparr>,
          \<lparr>role = User, content = ''Why?''\<rparr>, \<lparr>role = Assistant, content = ''Hello!''\<rparr>]"
    using clean by (simp add: noisy_response_def q sample_state_facts)
  from tr have tr': "messages (fst (handleTranslate sample_runtime ''s1'' ''a.pdf'' ''French''
        noisy_response earlier_chat))
       = [\<lparr>role = User, content = ''Hi''\<rparr>, \<lparr>role = Assistant, content = ''Hello''\<rparr>,
          \<lparr>role = User, content = ''Translate \"a.pdf\" to French''\<rparr>,
          \<lparr>role = Assistant, content = ''Hello!''\<rparr>]"
    using clean by (simp add: noisy_response_def sample_state_facts)
  from h1 h2 h3 nl one lines reads chat' tr' show ?thesis by blast
qed

text \<open>
  Two token events whose \<open>data\<close> is no string, so not of the shape of the protocol: the
  number 5 and the empty object. Neither is skipped: the answer \<open>Hi\<close> becomes \<open>Hi5\<close>
  and \<open>Hi[object Object]\<close>.
\<close>

theorem malformed_line_skipped_counterexample:
  "startsWith number_event ''data: ''
   \<and> trim (drop 6 number_event) \<noteq> ''[DONE]''
   \<and> json_parse loose_runtime (trim (drop 6 number_event))
       = Some (JObj [(''type'', JStr ''token''), (''data'', JNum 5)])
   \<and> \<not> spec_token_shape (JObj [(''type'', JStr ''token''), (''data'', JNum (5::nat))])
   \<and> handle_line loose_runtime number_event (''Hi'', [\<lparr>role = Assistant, content = ''Hi''\<rparr>])
       = Continue (''Hi5'', [\<lparr>role = Assistant, content = ''Hi5''\<rparr>])
   \<and> handle_line loose_runtime number_event (''Hi'', [\<lparr>role = Assistant, content = ''Hi''\<rparr>])
       \<noteq> Continue (''Hi'', [\<lparr>role = Assistant, content = ''Hi''\<rparr>])
   \<and> startsWith object_event ''data: ''
   \<and> trim (drop 6 object_event) \<noteq> ''[DONE]''
   \<and> json_parse loose_runtime (trim (drop 6 object_event))
       = Some (JObj [(''type'', JStr ''token''), (''data'', JObj [])])
   \<and> \<not> spec_token_shape (JObj [(''type'', JStr ''token''), (''data'', JObj [] :: nat json)])
   \<and> handle_line loose_runtime object_event (''Hi'', [\<lparr>role = Assistant, content = ''Hi''\<rparr>])
       = Continue (''Hi[object Object]'', [\<lparr>role = Assistant, content = ''Hi[object Object]''\<rparr>])
   \<and> for_lines loose_runtime [number_event] (''Hi'', [\<lparr>role = Assistant, content = ''Hi''\<rparr>])
       \<noteq> for_lines loose_runtime [] (''Hi'', [\<lparr>role = Assistant, content = ''Hi''\<rparr>])"
  by (simp add: loose_runtime_def number_event_def object_event_def spec_token_shape_def
      handle_line_def startsWith_def trim_def is_space_def try_token_def append_to_last_def)

end
